theory Spec2Isabelle
  imports Main "HOL-Library.Word" "HOL-Library.Monad_Syntax"
begin

unbundle bit_operations_syntax

section \<open>The SPI UART of uart.c: data model\<close>

type_synonym u8 = "8 word"
type_synonym u32 = "32 word"

text \<open>
  The \<open>uint16\<close> variables are natural numbers. C computes on them in \<open>int\<close> (integer
  promotion) and converts the result back to 16 bits where it is assigned: \<open>u16\<close> is
  that conversion.
\<close>

definition u16 :: "int \<Rightarrow> nat" where
  "u16 x = nat (x mod 65536)"

text \<open>
  The sizes of uart.c: \<^verbatim>\<open>UART_FIFO_BLOCK_SIZE\<close> = 8, \<^verbatim>\<open>UART_IN_EMERG\<close> = 8,
  \<^verbatim>\<open>UART_IN_SIZE\<close> = 256, \<^verbatim>\<open>UART_OUT_EMERG\<close> = 4, \<^verbatim>\<open>UART_OUT_SIZE\<close> = 256,
  \<^verbatim>\<open>UART_TIMER_OFF\<close> = 0xFF. They are numerals of whatever type the expression
  around them has after C's integer promotion.
\<close>

abbreviation (input) UART_FIFO_BLOCK_SIZE :: "'a::numeral" where "UART_FIFO_BLOCK_SIZE \<equiv> 8"
abbreviation (input) UART_IN_EMERG :: "'a::numeral" where "UART_IN_EMERG \<equiv> 8"
abbreviation (input) UART_IN_SIZE :: "'a::numeral" where "UART_IN_SIZE \<equiv> 256"
abbreviation (input) UART_OUT_EMERG :: "'a::numeral" where "UART_OUT_EMERG \<equiv> 4"
abbreviation (input) UART_OUT_SIZE :: "'a::numeral" where "UART_OUT_SIZE \<equiv> 256"
abbreviation (input) UART_TIMER_OFF :: u8 where "UART_TIMER_OFF \<equiv> 0xFF"

text \<open>
  The file's static variables, the static local \<open>got_esc\<close> of \<open>do_spi\<close>, and the part
  of the machine the file touches: the enable bit of the four timer control registers,
  the interrupt enable register, whether the card SPI link is configured, which
  processor owns the card bus, and the caller's memory that \<open>prio_dest\<close> points into
  (\<open>None\<close> is the null pointer).
  The arrays \<open>in\<close> and \<open>out\<close> are lists of their declared length; an access outside
  them is undefined in C and is \<open>None\<close> here.
\<close>

record uart =
  inb :: "u8 list"
  in_size :: nat
  outb :: "u8 list"
  out_head :: nat
  out_size :: nat
  prio_dest :: "nat option"
  prio_head :: nat
  prio_irq_bytes :: u32
  prio_size :: nat
  timer :: u8
  water_high :: nat
  water_low :: nat
  water_send :: bool
  inittimeout :: int
  got_esc :: bool
  timer_en :: "nat \<Rightarrow> bool"
  ie :: u32
  spi_on :: bool
  arm7_owns_card :: bool
  mem :: "nat \<Rightarrow> u8"

subsection \<open>Arrays\<close>

definition load_arr :: "u8 list \<Rightarrow> nat \<Rightarrow> u8 option" where
  "load_arr a i = (if i < length a then Some (a ! i) else None)"

definition store_arr :: "u8 list \<Rightarrow> nat \<Rightarrow> u8 \<Rightarrow> u8 list option" where
  "store_arr a i v = (if i < length a then Some (a[i := v]) else None)"

text \<open>
  \<open>memmove\<close> inside one array, from offset \<open>src\<close> to offset \<open>dst\<close>; the offsets and the
  count are the values of the C expressions before any conversion, so a negative count
  (a huge \<open>size_t\<close>) and a negative offset are outside the array.
\<close>

definition memmove_arr :: "u8 list \<Rightarrow> int \<Rightarrow> int \<Rightarrow> int \<Rightarrow> u8 list option" where
  "memmove_arr a dst src n =
     (if 0 \<le> dst \<and> 0 \<le> src \<and> 0 \<le> n \<and> dst + n \<le> int (length a) \<and> src + n \<le> int (length a)
      then Some (take (nat dst) a @ take (nat n) (drop (nat src) a) @ drop (nat (dst + n)) a)
      else None)"

text \<open>\<open>memcpy\<close> of the first \<open>n\<close> bytes at \<open>src\<close> to the start of an array.\<close>

definition memcpy_arr :: "u8 list \<Rightarrow> u8 list \<Rightarrow> nat \<Rightarrow> u8 list option" where
  "memcpy_arr a src n =
     (if n \<le> length a \<and> n \<le> length src then Some (take n src @ drop n a) else None)"

subsection \<open>Interrupts and the timer\<close>

definition BIT :: "nat \<Rightarrow> u32" where
  "BIT n = push_bit n 1"

text \<open>\<open>IRQ_CARD_LINE\<close> is bit 20 and timer \<open>n\<close> is bit \<open>n + 3\<close> in the interrupt masks of libnds.\<close>

definition IRQ_CARD_LINE :: u32 where
  "IRQ_CARD_LINE = BIT 20"

definition timer_irq :: "u8 \<Rightarrow> u32" where
  "timer_irq t = BIT (unat t + 3)"

definition irqEnable :: "u32 \<Rightarrow> uart \<Rightarrow> uart" where
  "irqEnable m s = s\<lparr>ie := ie s OR m\<rparr>"

definition irqDisable :: "u32 \<Rightarrow> uart \<Rightarrow> uart" where
  "irqDisable m s = s\<lparr>ie := ie s AND NOT m\<rparr>"

definition lock :: "uart \<Rightarrow> uart" where
  "lock s = (if timer s \<noteq> UART_TIMER_OFF
             then irqDisable (timer_irq (timer s) OR IRQ_CARD_LINE) s else s)"

definition unlock :: "uart \<Rightarrow> uart" where
  "unlock s = (if timer s \<noteq> UART_TIMER_OFF
               then irqEnable (timer_irq (timer s) OR IRQ_CARD_LINE) s else s)"

definition timer_start :: "uart \<Rightarrow> uart" where
  "timer_start s = (if timer s \<noteq> UART_TIMER_OFF
                    then s\<lparr>timer_en := (timer_en s)(unat (timer s) := True)\<rparr> else s)"

definition timer_stop :: "uart \<Rightarrow> uart" where
  "timer_stop s = (if timer s \<noteq> UART_TIMER_OFF
                   then s\<lparr>timer_en := (timer_en s)(unat (timer s) := False)\<rparr> else s)"

section \<open>The priority channel\<close>

text \<open>
  \<open>uart_write_prio(buf, size, dest, irq_bytes)\<close>. \<open>buf\<close> is the bytes the pointer
  points at. The sums are C's \<open>int\<close> arithmetic on the promoted \<open>uint16\<close> values;
  the assignment to \<open>out_size\<close> converts back to 16 bits. A frame longer than the array
  returns after \<open>lock()\<close>, with no \<open>unlock()\<close>. The parameter \<open>size\<close> is \<open>sz\<close> here.
\<close>

definition uart_write_prio :: "u8 list \<Rightarrow> nat \<Rightarrow> nat option \<Rightarrow> u32 \<Rightarrow> uart \<Rightarrow> uart option" where
  "uart_write_prio buf sz dest irq_bytes s =
     (let l = lock s in
      if UART_OUT_SIZE + UART_OUT_EMERG < int sz then Some l
      else do {
        a \<leftarrow> (if int sz + int (out_size l) - int (out_head l) \<le> UART_OUT_SIZE + UART_OUT_EMERG
              then memmove_arr (outb l) (int sz) (int (out_head l))
                     (int (out_size l) - int (out_head l))
              else memmove_arr (outb l) (int sz)
                     (int (out_size l) - UART_OUT_SIZE + UART_OUT_EMERG - int sz)
                     (UART_OUT_SIZE + UART_OUT_EMERG - int sz));
        b \<leftarrow> memcpy_arr a buf sz;
        Some (unlock (l\<lparr>outb := b,
                        out_size := u16 (int sz + int (out_size l) - int (out_head l)),
                        out_head := 0,
                        prio_dest := dest,
                        prio_head := 0,
                        prio_irq_bytes := irq_bytes,
                        prio_size := sz\<rparr>))
      })"

definition send_watermark :: "bool \<Rightarrow> uart \<Rightarrow> uart option" where
  "send_watermark highwater s =
     uart_write_prio [0x5C, 0x77, if highwater then 0x01 else 0x00] 3 None 0x00 s"

section \<open>The exchange engine\<close>

text \<open>
  \<open>1 << k\<close> on the \<open>int\<close> \<open>k = prio_size - prio_head - 2\<close>. C defines it for \<open>0 \<le> k < 32\<close>
  only, and \<open>k\<close> is \<open>-1\<close> at the last byte of every frame; the value taken here for
  the other amounts is the one of the ARM register shift, which reads the low byte of
  the amount and gives 0 from 32 on.
\<close>

definition shl1 :: "int \<Rightarrow> u32" where
  "shl1 k = (if k mod 256 < 32 then push_bit (nat (k mod 256)) 1 else 0)"

text \<open>The transmit half: the byte put on the wire, and the cursor advanced.\<close>

definition spi_send :: "uart \<Rightarrow> (u8 \<times> uart) option" where
  "spi_send s =
     (if out_head s < out_size s
      then do { b \<leftarrow> load_arr (outb s) (out_head s);
                Some (b, s\<lparr>out_head := u16 (int (out_head s) + 1)\<rparr>) }
      else Some (0x00, s))"

text \<open>
  The raw (priority) buffer. The flag is \<open>True\<close> where the handler returns at once.
\<close>

definition spi_prio :: "u8 \<Rightarrow> uart \<Rightarrow> bool \<times> uart" where
  "spi_prio rd s =
     (if prio_head s < prio_size s then
        let s1 = (if prio_irq_bytes s AND shl1 (int (prio_size s) - int (prio_head s) - 2) \<noteq> 0
                  then timer_stop s else s)
        in if prio_head s1 < 2 then (False, s1\<lparr>prio_head := u16 (int (prio_head s1) + 1)\<rparr>)
           else
             let s2 = (case prio_dest s1 of
                         Some p \<Rightarrow> s1\<lparr>mem := (mem s1)(p + prio_head s1 := rd)\<rparr>
                       | None \<Rightarrow> s1)
             in (True, s2\<lparr>prio_head := u16 (int (prio_head s2) + 1)\<rparr>)
      else (False, s))"

text \<open>The filter. The flag is \<open>True\<close> where the byte is removed and the handler returns.\<close>

definition spi_filter :: "u8 \<Rightarrow> uart \<Rightarrow> bool \<times> uart" where
  "spi_filter rd s =
     (if \<not> got_esc s \<and> rd = 0x5C then (True, s\<lparr>got_esc := True\<rparr>)
      else if got_esc s then (False, s\<lparr>got_esc := False\<rparr>)
      else if rd = 0x00 \<or> rd = 0xFF then (True, s)
      else (False, s))"

definition spi_watermarks :: "uart \<Rightarrow> uart option" where
  "spi_watermarks s = do {
     s1 \<leftarrow> (if 0 < water_high s \<and> int (in_size s) + 1 \<ge> int (water_high s) \<and> \<not> water_send s
            then do { t \<leftarrow> send_watermark True s; Some (t\<lparr>water_send := True\<rparr>) }
            else Some s);
     if 0 < water_low s1 \<and> int (in_size s1) + 1 \<le> int (water_low s1) \<and> water_send s1
     then do { t \<leftarrow> send_watermark False s1; Some (t\<lparr>water_send := False\<rparr>) }
     else Some s1
   }"

text \<open>Make some room, then add the byte to the buffer.\<close>

definition spi_store :: "u8 \<Rightarrow> uart \<Rightarrow> uart option" where
  "spi_store rd s = do {
     s1 \<leftarrow> (if in_size s = UART_IN_SIZE
            then do { a \<leftarrow> memmove_arr (inb s) 0 UART_FIFO_BLOCK_SIZE
                             (UART_IN_SIZE - UART_FIFO_BLOCK_SIZE);
                      Some (s\<lparr>inb := a, in_size := u16 (int (in_size s) - UART_FIFO_BLOCK_SIZE)\<rparr>) }
            else Some s);
     a \<leftarrow> store_arr (inb s1) (in_size s1) rd;
     Some (s1\<lparr>inb := a, in_size := u16 (int (in_size s1) + 1)\<rparr>)
   }"

text \<open>
  One run of \<open>do_spi\<close>: \<open>rd\<close> is the byte \<open>readBlocking_cardSPI\<close> delivers, the result
  holds the byte given to \<open>writeBlocking_cardSPI\<close>.
\<close>

definition do_spi :: "u8 \<Rightarrow> uart \<Rightarrow> (u8 \<times> uart) option" where
  "do_spi rd s = do {
     (tx, s1) \<leftarrow> spi_send s;
     let (fin, s2) = spi_prio rd (timer_start s1);
     if fin then Some (tx, s2)
     else
       let (removed, s3) = spi_filter rd s2 in
       if removed then Some (tx, s3)
       else do { s4 \<leftarrow> spi_watermarks s3;
                 s5 \<leftarrow> spi_store rd s4;
                 Some (tx, s5) }
   }"

text \<open>
  The interrupt handlers \<open>timer_irq\<close> and \<open>card_line_irq\<close> both call \<open>do_spi\<close>; a run of
  interrupts is one call for each byte the link delivers. The result lists the bytes
  transmitted.
\<close>

fun spi_run :: "u8 list \<Rightarrow> uart \<Rightarrow> (u8 list \<times> uart) option" where
  "spi_run [] s = Some ([], s)"
| "spi_run (rd # rds) s = do {
     (tx, s1) \<leftarrow> do_spi rd s;
     (txs, s2) \<leftarrow> spi_run rds s1;
     Some (tx # txs, s2)
   }"

section \<open>Library functions\<close>

subsection \<open>Writing\<close>

text \<open>
  The loop of \<open>uart_write\<close> over \<open>i < size\<close>, with the count \<open>ret\<close>; each \<open>break\<close> returns
  the count reached. \<open>i\<close> and \<open>ret\<close> stay below \<open>size\<close>, which is a \<open>uint16\<close>, so their
  increments do not wrap.
\<close>

function write_loop :: "u8 list \<Rightarrow> nat \<Rightarrow> nat \<Rightarrow> nat \<Rightarrow> uart \<Rightarrow> (nat \<times> uart) option" where
  "write_loop buf sz i ret s =
     (if i < sz then do {
        c \<leftarrow> load_arr buf i;
        if c = 0x00 then
          if int (out_size s) + 2 > UART_OUT_SIZE then Some (ret, s)
          else do {
            a \<leftarrow> store_arr (outb s) (out_size s) 0x5C;
            b \<leftarrow> store_arr a (out_size s + 1) 0x00;
            write_loop buf sz (i + 1) (ret + 1)
              (s\<lparr>outb := b, out_size := u16 (int (out_size s) + 2)\<rparr>)
          }
        else if c = 0x5C then
          if int (out_size s) + 2 > UART_OUT_SIZE then Some (ret, s)
          else do {
            a \<leftarrow> store_arr (outb s) (out_size s) 0x5C;
            b \<leftarrow> store_arr a (out_size s + 1) 0x5C;
            write_loop buf sz (i + 1) (ret + 1)
              (s\<lparr>outb := b, out_size := u16 (int (out_size s) + 2)\<rparr>)
          }
        else
          if int (out_size s) + 1 > UART_OUT_SIZE then Some (ret, s)
          else do {
            a \<leftarrow> store_arr (outb s) (out_size s) c;
            write_loop buf sz (i + 1) (ret + 1)
              (s\<lparr>outb := a, out_size := u16 (int (out_size s) + 1)\<rparr>)
          }
      }
      else Some (ret, s))"
  by pat_completeness auto
termination
  by (relation "measure (\<lambda>(buf, sz, i, ret, s). sz - i)") auto

declare write_loop.simps [simp del]

text \<open>\<open>uart_write(buf, size)\<close>: the digested bytes are removed first.\<close>

definition uart_write :: "u8 list \<Rightarrow> nat \<Rightarrow> uart \<Rightarrow> (nat \<times> uart) option" where
  "uart_write buf sz s =
     (let l = lock s in do {
        c \<leftarrow> (if 0 < out_head l
              then do { a \<leftarrow> memmove_arr (outb l) 0 (int (out_head l))
                               (int (out_size l) - int (out_head l));
                        Some (l\<lparr>outb := a,
                                out_size := u16 (int (out_size l) - int (out_head l)),
                                out_head := 0\<rparr>) }
              else Some l);
        (ret, w) \<leftarrow> write_loop buf sz 0 0 c;
        Some (ret, unlock w)
      })"

subsection \<open>Reading\<close>

definition uart_available :: "uart \<Rightarrow> nat" where
  "uart_available s = in_size s"


definition uart_requeue :: "u8 list \<Rightarrow> nat \<Rightarrow> uart \<Rightarrow> (bool \<times> uart) option" where
  "uart_requeue src sz s =
     (let l = lock s in
      if int sz + int (in_size l) \<le> UART_IN_SIZE + UART_IN_EMERG then do {
        a \<leftarrow> memmove_arr (inb l) (int sz) 0 (int (in_size l));
        b \<leftarrow> memcpy_arr (outb l) src sz;
        Some (True, unlock (l\<lparr>inb := a, outb := b,
                               out_size := u16 (int (out_size l) + int sz)\<rparr>))
      }
      else Some (False, unlock l))"


subsection \<open>Waiting for a priority frame\<close>

text \<open>
  The cleanup of \<open>uart_wait_prio\<close> after the loop has timed out.
\<close>

definition wait_prio_cleanup :: "uart \<Rightarrow> uart" where
  "wait_prio_cleanup s =
     (let l = lock s in
      timer_start (unlock (l\<lparr>out_head := prio_size l, prio_size := 0, prio_head := 0\<rparr>)))"

text \<open>
  The loop of \<open>uart_wait_prio(timeout)\<close>. \<open>start\<close> is the clock read at entry. The loop
  runs in the foreground while the interrupts go on: each element of the trace is one
  pass of the loop that has not found the frame complete, with the bytes the handler
  received during \<open>swiDelay\<close> and the clock that the loop condition then reads. A trace
  that ends while the loop still waits gives no result.
\<close>

fun uart_wait_prio :: "nat \<Rightarrow> int \<Rightarrow> (u8 list \<times> int) list \<Rightarrow> uart \<Rightarrow> (bool \<times> uart) option" where
  "uart_wait_prio timeout start [] s =
     (if prio_head s = prio_size s then Some (True, s\<lparr>prio_size := 0, prio_head := 0\<rparr>)
      else None)"
| "uart_wait_prio timeout start ((rds, now) # env) s =
     (if prio_head s = prio_size s then Some (True, s\<lparr>prio_size := 0, prio_head := 0\<rparr>)
      else do {
        (txs, s1) \<leftarrow> spi_run rds s;
        if timeout = 0 \<or> now - start \<le> int timeout
        then uart_wait_prio timeout start env s1
        else Some (False, wait_prio_cleanup s1)
      })"

subsection \<open>Opening and closing the link\<close>

text \<open>
  \<open>uart_set_spi_rate(bps)\<close> writes \<open>TIMER_DATA\<close> and \<open>TIMER_CR\<close> and the floating-point
  \<open>spi_rate\<close>; all four of its branches set \<open>TIMER_ENABLE\<close>, which is the part kept here.
\<close>

definition uart_set_spi_rate :: "nat \<Rightarrow> uart \<Rightarrow> uart" where
  "uart_set_spi_rate bps s =
     (if timer s = UART_TIMER_OFF then s
      else s\<lparr>timer_en := (timer_en s)(unat (timer s) := True)\<rparr>)"

text \<open>
  \<open>uart_wait()\<close> sleeps until one of the two interrupts has been served; \<open>rds\<close> is the
  bytes their handler received.
\<close>

definition uart_wait :: "u8 list \<Rightarrow> uart \<Rightarrow> uart option" where
  "uart_wait rds s =
     (if timer s \<noteq> UART_TIMER_OFF then map_option snd (spi_run rds s) else Some s)"

text \<open>
  \<open>uart_firmware_ver()\<close>: the array \<open>msg\<close> lives at address \<open>p\<close> of the caller's memory
  and is both the frame and the reply destination.
\<close>

definition uart_firmware_ver :: "nat \<Rightarrow> int \<Rightarrow> (u8 list \<times> int) list \<Rightarrow> uart \<Rightarrow> (u8 \<times> uart) option" where
  "uart_firmware_ver p start env s =
     (let s0 = s\<lparr>mem := (mem s)(p := 0x5C, p + 1 := 0x76, p + 2 := 0x00)\<rparr> in do {
        s1 \<leftarrow> uart_write_prio [mem s0 p, mem s0 (p + 1), mem s0 (p + 2)] 3 (Some p) 0x00 s0;
        (fin, s2) \<leftarrow> uart_wait_prio 0 start env s1;
        Some (mem s2 (p + 2), s2)
      })"

text \<open>The probe \<open>for (i=3; 0<=i; i--)\<close> for a timer that is not enabled.\<close>

fun probe_timers :: "nat \<Rightarrow> uart \<Rightarrow> nat option" where
  "probe_timers 0 s = (if timer_en s 0 then None else Some 0)"
| "probe_timers (Suc i) s = (if timer_en s (Suc i) then probe_timers i s else Some (Suc i))"

text \<open>
  The \<open>do \<dots> while (true)\<close> of \<open>uart_init\<close>, with the timer number \<open>i\<close> found by the probe.
  Each element of the trace is one pass: the trace of its \<open>uart_firmware_ver()\<close> and the
  bytes received during its \<open>uart_wait()\<close>.
\<close>

fun init_loop :: "nat \<Rightarrow> nat \<Rightarrow> int \<Rightarrow> ((u8 list \<times> int) list \<times> u8 list) list \<Rightarrow> uart \<Rightarrow> (bool \<times> uart) option" where
  "init_loop i p start [] s = None"
| "init_loop i p start ((env, rds) # its) s = do {
     (ver, s1) \<leftarrow> uart_firmware_ver p start env s;
     s2 \<leftarrow> uart_wait rds s1;
     if ver \<noteq> 0x00 \<and> ver \<noteq> 0xFF then Some (True, s2)
     else if inittimeout s2 = 0 \<or> ver = 0x00
     then Some (False, irqDisable (BIT (i + 3)) (s2\<lparr>spi_on := False\<rparr>))
     else init_loop i p start its (s2\<lparr>inittimeout := inittimeout s2 - 1\<rparr>)
   }"

text \<open>
  \<open>uart_init()\<close>; \<open>arm9\<close> says which of the two \<open>#ifdef ARM9\<close> lines was compiled.
  \<open>init_cardSPI\<close> and \<open>config_cardSPI\<close> switch the link on, \<open>disable_cardSPI\<close> off.
\<close>

definition uart_init :: "bool \<Rightarrow> nat \<Rightarrow> int \<Rightarrow> ((u8 list \<times> int) list \<times> u8 list) list \<Rightarrow> uart \<Rightarrow> (bool \<times> uart) option" where
  "uart_init arm9 p start its s =
     (if timer s \<noteq> UART_TIMER_OFF then Some (False, s)
      else
        let s1 = irqEnable IRQ_CARD_LINE (s\<lparr>arm7_owns_card := \<not> arm9, spi_on := True\<rparr>)
        in case probe_timers 3 s1 of
             None \<Rightarrow> Some (False, s1)
           | Some i \<Rightarrow>
               init_loop i p start its
                 (uart_set_spi_rate 2000 (irqEnable (BIT (i + 3)) (s1\<lparr>timer := of_nat i\<rparr>))))"

definition uart_close :: "uart \<Rightarrow> uart" where
  "uart_close s =
     (let s1 = (if timer s \<noteq> UART_TIMER_OFF
                then (irqDisable (timer_irq (timer s))
                        (s\<lparr>timer_en := (timer_en s)(unat (timer s) := False)\<rparr>))
                     \<lparr>timer := UART_TIMER_OFF\<rparr>
                else s)
      in (irqDisable IRQ_CARD_LINE s1)\<lparr>spi_on := False\<rparr>)"

section \<open>Observations and invariants\<close>

text \<open>
  The state the file starts in: every static variable at its initialiser, no timer
  running, no interrupt enabled.
\<close>

definition uart_reset :: uart where
  "uart_reset = \<lparr>inb = replicate 264 0, in_size = 0, outb = replicate 260 0, out_head = 0,
     out_size = 0, prio_dest = None, prio_head = 0, prio_irq_bytes = 0, prio_size = 0,
     timer = UART_TIMER_OFF, water_high = 0, water_low = 0, water_send = False,
     inittimeout = 10, got_esc = False, timer_en = (\<lambda>n. False), ie = 0, spi_on = False,
     arm7_owns_card = False, mem = (\<lambda>a. 0)\<rparr>"

text \<open>
  The arrays have their declared lengths, the inbound count is at most \<open>UART_IN_SIZE\<close>,
  the cursor is at most the outbound count, which fits the array, and the frame length
  is a \<open>uint16\<close> value.
\<close>

definition wf_uart :: "uart \<Rightarrow> bool" where
  "wf_uart s \<longleftrightarrow> length (inb s) = 264 \<and> length (outb s) = 260 \<and> in_size s \<le> 256 \<and>
     out_head s \<le> out_size s \<and> out_size s \<le> 260 \<and> prio_size s < 65536"

text \<open>The bytes not yet transmitted, and the bytes not yet read.\<close>

definition queued :: "uart \<Rightarrow> u8 list" where
  "queued s = take (out_size s - out_head s) (drop (out_head s) (outb s))"

definition avail :: "uart \<Rightarrow> u8 list" where
  "avail s = take (in_size s) (inb s)"

text \<open>
  The cursor, the sent-count and the byte on the wire after the transmit half of a step.
\<close>

definition sent_head :: "uart \<Rightarrow> nat" where
  "sent_head s = (if out_head s < out_size s then out_head s + 1 else out_head s)"

definition sent_prio :: "uart \<Rightarrow> nat" where
  "sent_prio s = (if prio_head s < prio_size s then prio_head s + 1 else prio_head s)"

definition next_tx :: "uart \<Rightarrow> u8" where
  "next_tx s = (if out_head s < out_size s then outb s ! out_head s else 0x00)"

text \<open>
  A priority frame is active and past its two header bytes: the received byte is a
  reply byte.
\<close>

definition reply_region :: "uart \<Rightarrow> bool" where
  "reply_region s \<longleftrightarrow> prio_head s < prio_size s \<and> 2 \<le> prio_head s"

text \<open>The filter removes the byte.\<close>

definition filtered :: "u8 \<Rightarrow> uart \<Rightarrow> bool" where
  "filtered rd s \<longleftrightarrow> \<not> got_esc s \<and> (rd = 0x5C \<or> rd = 0x00 \<or> rd = 0xFF)"

text \<open>
  The two watermark tests of a step that stores a byte, and the notice frame. The
  second test reads the latch the first one may have set.
\<close>

definition hi_cond :: "uart \<Rightarrow> bool" where
  "hi_cond s \<longleftrightarrow> 0 < water_high s \<and> water_high s \<le> in_size s + 1 \<and> \<not> water_send s"

definition lo_cond :: "uart \<Rightarrow> bool" where
  "lo_cond s \<longleftrightarrow> 0 < water_low s \<and> in_size s + 1 \<le> water_low s \<and> (water_send s \<or> hi_cond s)"

definition wm_frame :: "bool \<Rightarrow> u8 list" where
  "wm_frame highwater = [0x5C, 0x77, if highwater then 0x01 else 0x00]"

text \<open>
  Where a step that stores a byte enqueues a notice, the bytes not yet transmitted
  leave room in \<open>out\<close> for the two notice frames one step can enqueue, so that
  \<open>uart_write_prio\<close> does not take its overflow branch there.
\<close>

definition prio_room :: "uart \<Rightarrow> bool" where
  "prio_room s \<longleftrightarrow> (hi_cond s \<or> lo_cond s \<longrightarrow> out_size s - out_head s + 6 \<le> 260)"

subsection \<open>States and inputs used as examples\<close>

text \<open>An inbound buffer holding 256 bytes, eight \<open>A\<close> and then \<open>B\<close>s.\<close>

definition full_in :: uart where
  "full_in = uart_reset\<lparr>inb := replicate 8 0x41 @ replicate 256 0x42, in_size := 256\<rparr>"

text \<open>
  The firmware-version frame in flight, with its reply destination at address 100:
  after one byte, and after the two header bytes.
\<close>

definition ver_header :: uart where
  "ver_header = uart_reset\<lparr>outb := [0x5C, 0x76, 0x00] @ replicate 257 0, out_size := 3,
      out_head := 1, prio_dest := Some 100, prio_head := 1, prio_size := 3\<rparr>"

definition ver_reply :: uart where
  "ver_reply = ver_header\<lparr>out_head := 2, prio_head := 2\<rparr>"

text \<open>An outbound queue of 259 bytes not yet transmitted, and the frame of \<open>uart_set_bps(9600)\<close>.\<close>

definition nearly_full :: uart where
  "nearly_full = uart_reset\<lparr>outb := [0x41, 0x42] @ replicate 258 0x2E, out_size := 259\<rparr>"

definition bps_frame :: "u8 list" where
  "bps_frame = [0x5C, 0x62, 0x00, 0x00, 0x25, 0x80]"

text \<open>Two bytes queued for transmission.\<close>

definition two_queued :: uart where
  "two_queued = uart_reset\<lparr>outb := [0x41, 0x42] @ replicate 258 0x00, out_size := 2\<rparr>"

text \<open>The firmware-version frame after one byte, with the high watermark at one byte.\<close>

definition ver_header_hw :: uart where
  "ver_header_hw = ver_header\<lparr>water_high := 1\<rparr>"

text \<open>
  The frame of \<open>uart_set_bps\<close> in flight after one byte, with its reply destination at
  address 100 and the high watermark at one byte. And the queue of 259 bytes with the
  firmware-version frame active.
\<close>

definition bps_header_hw :: uart where
  "bps_header_hw = uart_reset\<lparr>outb := bps_frame @ replicate 254 0x00, out_size := 6,
      out_head := 1, prio_dest := Some 100, prio_head := 1, prio_size := 6, water_high := 1\<rparr>"

definition busy_full :: uart where
  "busy_full = nearly_full\<lparr>prio_dest := Some 100, prio_head := 1, prio_size := 3\<rparr>"

text \<open>The bytes \<open>uart_write\<close> stores for one source byte.\<close>

definition escape :: "u8 \<Rightarrow> u8 list" where
  "escape b = (if b = 0x00 then [0x5C, 0x00] else if b = 0x5C then [0x5C, 0x5C] else [b])"

text \<open>
  The firmware-version frame stalled after its first byte, with two ordinary bytes
  queued behind it and timer 3 driving the link.
\<close>

definition ver_stalled :: uart where
  "ver_stalled = uart_reset\<lparr>outb := [0x5C, 0x76, 0x00, 0x41, 0x42] @ replicate 255 0x00,
      out_size := 5, out_head := 1, prio_dest := Some 100, prio_head := 1, prio_size := 3,
      timer := 3\<rparr>"


text \<open>One byte unread in the inbound buffer.\<close>

definition one_unread :: uart where
  "one_unread = uart_reset\<lparr>inb := [0x41] @ replicate 263 0x00, in_size := 1\<rparr>"


text \<open>
  A card that answers the version query with \<open>0x00\<close>: one pass of the loop of
  \<open>uart_init\<close>, three bytes received while the frame is awaited. And a machine whose
  four timers are all in use.
\<close>

definition absent_card :: "((u8 list \<times> int) list \<times> u8 list) list" where
  "absent_card = [([([0xFF, 0xFF, 0x00], 0)], [])]"

definition no_timer :: uart where
  "no_timer = uart_reset\<lparr>timer_en := (\<lambda>n. True)\<rparr>"

section \<open>The steps of the exchange engine\<close>

lemma u16_small [simp]: "0 \<le> x \<Longrightarrow> x < 65536 \<Longrightarrow> u16 x = nat x"
  by (simp add: u16_def)

lemma lock_simps [simp]:
  "inb (lock s) = inb s" "in_size (lock s) = in_size s" "outb (lock s) = outb s"
  "out_head (lock s) = out_head s" "out_size (lock s) = out_size s"
  "prio_dest (lock s) = prio_dest s" "prio_head (lock s) = prio_head s"
  "prio_irq_bytes (lock s) = prio_irq_bytes s" "prio_size (lock s) = prio_size s"
  "timer (lock s) = timer s" "water_high (lock s) = water_high s"
  "water_low (lock s) = water_low s" "water_send (lock s) = water_send s"
  "got_esc (lock s) = got_esc s" "mem (lock s) = mem s" "timer_en (lock s) = timer_en s"
  by (simp_all add: lock_def irqDisable_def)

lemma unlock_simps [simp]:
  "inb (unlock s) = inb s" "in_size (unlock s) = in_size s" "outb (unlock s) = outb s"
  "out_head (unlock s) = out_head s" "out_size (unlock s) = out_size s"
  "prio_dest (unlock s) = prio_dest s" "prio_head (unlock s) = prio_head s"
  "prio_irq_bytes (unlock s) = prio_irq_bytes s" "prio_size (unlock s) = prio_size s"
  "timer (unlock s) = timer s" "water_high (unlock s) = water_high s"
  "water_low (unlock s) = water_low s" "water_send (unlock s) = water_send s"
  "got_esc (unlock s) = got_esc s" "mem (unlock s) = mem s" "timer_en (unlock s) = timer_en s"
  by (simp_all add: unlock_def irqEnable_def)

lemma memmove_arr_Some:
  "dst + n \<le> length a \<Longrightarrow> src + n \<le> length a \<Longrightarrow>
   memmove_arr a (int dst) (int src) (int n) =
     Some (take dst a @ take n (drop src a) @ drop (dst + n) a)"
  by (simp add: memmove_arr_def nat_add_distrib)

lemma memcpy_arr_Some:
  "n \<le> length a \<Longrightarrow> n \<le> length src \<Longrightarrow> memcpy_arr a src n = Some (take n src @ drop n a)"
  by (simp add: memcpy_arr_def)

lemma write_prio_fits:
  assumes len: "length (outb s) = 260" and ho: "out_head s \<le> out_size s"
    and buf: "sz \<le> length buf" and fits: "sz + (out_size s - out_head s) \<le> 260"
    and os: "out_size s \<le> 260"
  shows "uart_write_prio buf sz dest irq s =
           Some (unlock ((lock s)\<lparr>outb := take sz buf @ queued s @
                                        drop (sz + (out_size s - out_head s)) (outb s),
                     out_size := sz + (out_size s - out_head s),
                     out_head := 0, prio_dest := dest, prio_head := 0,
                     prio_irq_bytes := irq, prio_size := sz\<rparr>))"
proof -
  define n where "n = out_size s - out_head s"
  define a where "a = take sz (outb s) @ take n (drop (out_head s) (outb s)) @ drop (sz + n) (outb s)"
  have n: "int (out_size s) - int (out_head s) = int n"
    using ho by (simp add: n_def)
  have c1: "\<not> 260 < int sz" and c2: "int sz + int (out_size s) - int (out_head s) \<le> 260"
    using fits ho by (simp_all add: n_def)
  have mm: "memmove_arr (outb s) (int sz) (int (out_head s)) (int n) = Some a"
    unfolding a_def using fits ho os len by (intro memmove_arr_Some) (simp_all add: n_def)
  have la: "length a = 260"
    using fits ho os len by (simp add: a_def n_def)
  have da: "drop sz a = queued s @ drop (sz + n) (outb s)"
    using fits len by (simp add: a_def queued_def n_def)
  have mc: "memcpy_arr a buf sz = Some (take sz buf @ queued s @ drop (sz + n) (outb s))"
    using memcpy_arr_Some [of sz a buf] buf fits la da by simp
  have u: "u16 (int sz + int (out_size s) - int (out_head s)) = sz + n"
    using fits ho by (simp add: n_def)
  show ?thesis
    unfolding uart_write_prio_def Let_def
    using c1 c2 by (simp add: n mm mc u) (simp add: n_def)
qed

lemma length_queued:
  "out_size s \<le> length (outb s) \<Longrightarrow> length (queued s) = out_size s - out_head s"
  by (simp add: queued_def)

lemma queued_write_prio:
  assumes "length (outb s) = 260" "out_head s \<le> out_size s" "sz \<le> length buf"
    "sz + (out_size s - out_head s) \<le> 260" "out_size s \<le> 260"
    "uart_write_prio buf sz dest irq s = Some t"
  shows "queued t = take sz buf @ queued s"
proof -
  have l: "length (queued s) = out_size s - out_head s"
    using assms(1,5) by (simp add: length_queued)
  have "queued t = take (sz + (out_size s - out_head s))
                     (take sz buf @ queued s @ drop (sz + (out_size s - out_head s)) (outb s))"
    using assms(6) unfolding write_prio_fits [OF assms(1-5)] by (auto simp add: queued_def)
  also have "\<dots> = take sz buf @ queued s"
    using assms(3) l by simp
  finally show ?thesis .
qed


lemma timer_start_simps [simp]:
  "inb (timer_start s) = inb s" "in_size (timer_start s) = in_size s" "outb (timer_start s) = outb s"
  "out_head (timer_start s) = out_head s" "out_size (timer_start s) = out_size s"
  "prio_dest (timer_start s) = prio_dest s" "prio_head (timer_start s) = prio_head s"
  "prio_irq_bytes (timer_start s) = prio_irq_bytes s" "prio_size (timer_start s) = prio_size s"
  "timer (timer_start s) = timer s" "water_high (timer_start s) = water_high s"
  "water_low (timer_start s) = water_low s" "water_send (timer_start s) = water_send s"
  "got_esc (timer_start s) = got_esc s" "mem (timer_start s) = mem s"
  by (simp_all add: timer_start_def)

lemma timer_stop_simps [simp]:
  "inb (timer_stop s) = inb s" "in_size (timer_stop s) = in_size s" "outb (timer_stop s) = outb s"
  "out_head (timer_stop s) = out_head s" "out_size (timer_stop s) = out_size s"
  "prio_dest (timer_stop s) = prio_dest s" "prio_head (timer_stop s) = prio_head s"
  "prio_irq_bytes (timer_stop s) = prio_irq_bytes s" "prio_size (timer_stop s) = prio_size s"
  "timer (timer_stop s) = timer s" "water_high (timer_stop s) = water_high s"
  "water_low (timer_stop s) = water_low s" "water_send (timer_stop s) = water_send s"
  "got_esc (timer_stop s) = got_esc s" "mem (timer_stop s) = mem s"
  by (simp_all add: timer_stop_def)

lemma spi_send_Some:
  assumes "wf_uart s"
  shows "spi_send s = Some (if out_head s < out_size s then outb s ! out_head s else 0,
           s\<lparr>out_head := (if out_head s < out_size s then out_head s + 1 else out_head s)\<rparr>)"
  using assms by (simp add: spi_send_def wf_uart_def load_arr_def nat_add_distrib)

lemma timer_stop_eq: "timer_stop s = s\<lparr>timer_en := timer_en (timer_stop s)\<rparr>"
  by (simp add: timer_stop_def)

lemma take_store_last:
  assumes "n < length a"
  shows "take (Suc n) (a[n := v]) = take n a @ [v]"
  using assms by (simp add: take_Suc_conv_app_nth)

lemma spi_prio_pass:
  assumes "\<not> (prio_head s < prio_size s \<and> 2 \<le> prio_head s)" "prio_size s < 65536"
  shows "\<exists>e. spi_prio rd s = (False,
           s\<lparr>prio_head := (if prio_head s < prio_size s then prio_head s + 1 else prio_head s),
             timer_en := e\<rparr>)"
proof (cases "prio_head s < prio_size s")
  case False
  then show ?thesis
    by (intro exI [of _ "timer_en s"]) (simp add: spi_prio_def)
next
  case True
  with assms have lt: "prio_head s < 2" by simp
  show ?thesis
  proof (cases "prio_irq_bytes s AND shl1 (int (prio_size s) - int (prio_head s) - 2) \<noteq> 0")
    case stop: True
    show ?thesis
      using True lt stop
      by (intro exI [of _ "timer_en (timer_stop s)"])
        (simp add: spi_prio_def nat_add_distrib timer_stop_def)
  next
    case nostop: False
    show ?thesis
      using True lt nostop
      by (intro exI [of _ "timer_en s"]) (simp add: spi_prio_def nat_add_distrib)
  qed
qed

lemma spi_prio_capture:
  assumes "prio_head s < prio_size s" "2 \<le> prio_head s" "prio_size s < 65536"
  shows "\<exists>e. spi_prio rd s = (True,
           s\<lparr>mem := (case prio_dest s of Some p \<Rightarrow> (mem s)(p + prio_head s := rd) | None \<Rightarrow> mem s),
             prio_head := prio_head s + 1, timer_en := e\<rparr>)"
proof (cases "prio_irq_bytes s AND shl1 (int (prio_size s) - int (prio_head s) - 2) \<noteq> 0")
  case stop: True
  show ?thesis
    using assms stop
    by (intro exI [of _ "timer_en (timer_stop s)"])
      (simp add: spi_prio_def nat_add_distrib timer_stop_def split: option.splits)
next
  case nostop: False
  show ?thesis
    using assms nostop
    by (intro exI [of _ "timer_en s"])
      (simp add: spi_prio_def nat_add_distrib split: option.splits)
qed

lemma spi_store_Some:
  assumes "length (inb s) = 264" "in_size s \<le> 256"
  shows "\<exists>a. spi_store rd s = Some (s\<lparr>inb := a,
            in_size := (if in_size s = 256 then 249 else in_size s + 1)\<rparr>) \<and>
          length a = 264 \<and>
          take (if in_size s = 256 then 249 else in_size s + 1) a =
            (if in_size s = 256 then drop 8 (avail s) else avail s) @ [rd]"
proof (cases "in_size s = 256")
  case True
  define a where "a = take 248 (drop 8 (inb s)) @ drop 248 (inb s)"
  have mm: "memmove_arr (inb s) 0 8 248 = Some a"
    using assms(1) memmove_arr_Some [of 0 248 "inb s" 8] by (simp add: a_def)
  have la: "length a = 264"
    using assms(1) by (simp add: a_def)
  have ta: "take 248 a = drop 8 (avail s)"
    using assms(1) True by (simp add: a_def avail_def drop_take)
  have "take (Suc 248) (a[248 := rd]) = take 248 a @ [rd]"
    using la by (intro take_store_last) simp
  then have tk: "take 249 (a[248 := rd]) = drop 8 (avail s) @ [rd]"
    using ta by simp
  have "spi_store rd s = Some (s\<lparr>inb := a[248 := rd], in_size := 249\<rparr>)"
    using True la by (simp add: spi_store_def mm store_arr_def)
  then show ?thesis
    using True la tk by (intro exI [of _ "a[248 := rd]"]) simp
next
  case False
  have "take (Suc (in_size s)) ((inb s)[in_size s := rd]) = take (in_size s) (inb s) @ [rd]"
    using assms by (intro take_store_last) simp
  moreover have "spi_store rd s = Some (s\<lparr>inb := (inb s)[in_size s := rd], in_size := in_size s + 1\<rparr>)"
    using False assms by (simp add: spi_store_def store_arr_def nat_add_distrib)
  ultimately show ?thesis
    using False assms(1) by (intro exI [of _ "(inb s)[in_size s := rd]"]) (simp add: avail_def)
qed


lemma send_watermark_props:
  assumes "length (outb s) = 260" "out_head s \<le> out_size s" "out_size s \<le> 260"
    and "out_size s - out_head s \<le> 257"
  shows "\<exists>t. send_watermark h s = Some t \<and> queued t = wm_frame h @ queued s \<and>
           out_head t = 0 \<and> out_size t = 3 + (out_size s - out_head s) \<and>
           length (outb t) = 260 \<and>
           prio_dest t = None \<and> prio_head t = 0 \<and> prio_irq_bytes t = 0 \<and> prio_size t = 3 \<and>
           inb t = inb s \<and> in_size t = in_size s \<and> got_esc t = got_esc s \<and> mem t = mem s \<and>
           water_high t = water_high s \<and> water_low t = water_low s \<and>
           water_send t = water_send s \<and> timer t = timer s"
proof -
  have b: "3 \<le> length (wm_frame h)" and f: "3 + (out_size s - out_head s) \<le> 260"
    using assms(4) by (simp_all add: wm_frame_def)
  note eq = write_prio_fits [OF assms(1,2) b f assms(3), of None 0]
  have sw: "send_watermark h s = uart_write_prio (wm_frame h) 3 None 0 s"
    by (simp add: send_watermark_def wm_frame_def)
  have q: "queued (the (send_watermark h s)) = take 3 (wm_frame h) @ queued s"
    using queued_write_prio [OF assms(1,2) b f assms(3), of None 0] eq sw by simp
  have l: "length (queued s) = out_size s - out_head s"
    using assms(1,3) by (simp add: length_queued)
  show ?thesis
    using q f l assms(1) unfolding sw eq by (simp add: wm_frame_def)
qed

lemma spi_watermarks_Some:
  assumes "length (outb s) = 260" "out_head s \<le> out_size s" "out_size s \<le> 260"
    and "out_size s - out_head s \<le> 254"
  shows "\<exists>t. spi_watermarks s = Some t \<and>
           inb t = inb s \<and> in_size t = in_size s \<and> got_esc t = got_esc s \<and> mem t = mem s \<and>
           water_high t = water_high s \<and> water_low t = water_low s \<and> timer t = timer s \<and>
           water_send t = (\<not> lo_cond s \<and> (hi_cond s \<or> water_send s)) \<and>
           queued t = (if lo_cond s then wm_frame False else []) @
                      (if hi_cond s then wm_frame True else []) @ queued s \<and>
           (if hi_cond s \<or> lo_cond s
            then prio_dest t = None \<and> prio_head t = 0 \<and> prio_size t = 3 \<and>
                 prio_irq_bytes t = 0 \<and> out_head t = 0
            else t = s)"
proof -
  define s1 where "s1 = (if hi_cond s then (the (send_watermark True s))\<lparr>water_send := True\<rparr> else s)"
  have r1: "out_size s - out_head s \<le> 257" using assms(4) by simp
  from send_watermark_props [OF assms(1-3) r1, of True]
  obtain t1 where t1: "send_watermark True s = Some t1" "queued t1 = wm_frame True @ queued s"
    "out_head t1 = 0" "out_size t1 = 3 + (out_size s - out_head s)" "length (outb t1) = 260"
    "prio_dest t1 = None" "prio_head t1 = 0" "prio_irq_bytes t1 = 0" "prio_size t1 = 3"
    "inb t1 = inb s" "in_size t1 = in_size s" "got_esc t1 = got_esc s" "mem t1 = mem s"
    "water_high t1 = water_high s" "water_low t1 = water_low s"
    "water_send t1 = water_send s" "timer t1 = timer s"
    by blast
  have first: "(if 0 < water_high s \<and> int (in_size s) + 1 \<ge> int (water_high s) \<and> \<not> water_send s
            then do { t \<leftarrow> send_watermark True s; Some (t\<lparr>water_send := True\<rparr>) }
            else Some s) = Some s1"
    using t1(1) by (simp add: s1_def hi_cond_def)
  have p1: "length (outb s1) = 260" "out_head s1 \<le> out_size s1" "out_size s1 \<le> 260"
    "out_size s1 - out_head s1 \<le> 257"
    using assms t1 by (auto simp add: s1_def)
  have k1: "inb s1 = inb s" "in_size s1 = in_size s" "got_esc s1 = got_esc s" "mem s1 = mem s"
    "water_high s1 = water_high s" "water_low s1 = water_low s" "timer s1 = timer s"
    "water_send s1 = (hi_cond s \<or> water_send s)"
    "queued s1 = (if hi_cond s then wm_frame True else []) @ queued s"
    using t1 by (simp_all add: s1_def queued_def)
  have lo: "(0 < water_low s1 \<and> int (in_size s1) + 1 \<le> int (water_low s1) \<and> water_send s1) = lo_cond s"
    using k1 by (auto simp add: lo_cond_def)
  have sw: "spi_watermarks s = (if lo_cond s
       then do { t \<leftarrow> send_watermark False s1; Some (t\<lparr>water_send := False\<rparr>) } else Some s1)"
    by (simp add: spi_watermarks_def first lo [symmetric])
  show ?thesis
  proof (cases "lo_cond s")
    case True
    from send_watermark_props [OF p1, of False]
    obtain t2 where t2: "send_watermark False s1 = Some t2" "queued t2 = wm_frame False @ queued s1"
      "out_head t2 = 0" "prio_dest t2 = None" "prio_head t2 = 0" "prio_irq_bytes t2 = 0" "prio_size t2 = 3"
      "inb t2 = inb s1" "in_size t2 = in_size s1" "got_esc t2 = got_esc s1" "mem t2 = mem s1"
      "water_high t2 = water_high s1" "water_low t2 = water_low s1" "timer t2 = timer s1"
      by blast
    have "spi_watermarks s = Some (t2\<lparr>water_send := False\<rparr>)"
      using True t2(1) by (simp add: sw)
    then show ?thesis
      using True t2 k1 by (simp add: queued_def)
  next
    case False
    have "spi_watermarks s = Some s1"
      using False by (simp add: sw)
    then show ?thesis
      using False k1 t1 by (auto simp add: s1_def)
  qed
qed



lemma spi_watermarks_idle:
  assumes "\<not> hi_cond s" "\<not> lo_cond s"
  shows "spi_watermarks s = Some s"
  using assms by (auto simp add: spi_watermarks_def hi_cond_def lo_cond_def)

lemma spi_watermarks_room:
  assumes "length (outb s) = 260" "out_head s \<le> out_size s" "out_size s \<le> 260"
    and "hi_cond s \<or> lo_cond s \<longrightarrow> out_size s - out_head s \<le> 254"
  shows "\<exists>t. spi_watermarks s = Some t \<and>
           inb t = inb s \<and> in_size t = in_size s \<and> got_esc t = got_esc s \<and> mem t = mem s \<and>
           water_high t = water_high s \<and> water_low t = water_low s \<and> timer t = timer s \<and>
           water_send t = (\<not> lo_cond s \<and> (hi_cond s \<or> water_send s)) \<and>
           queued t = (if lo_cond s then wm_frame False else []) @
                      (if hi_cond s then wm_frame True else []) @ queued s \<and>
           (if hi_cond s \<or> lo_cond s
            then prio_dest t = None \<and> prio_head t = 0 \<and> prio_size t = 3 \<and>
                 prio_irq_bytes t = 0 \<and> out_head t = 0
            else t = s)"
proof (cases "hi_cond s \<or> lo_cond s")
  case True
  with assms(4) have "out_size s - out_head s \<le> 254" by simp
  from spi_watermarks_Some [OF assms(1-3) this] show ?thesis .
next
  case False
  then have "spi_watermarks s = Some s"
    by (simp add: spi_watermarks_idle)
  then show ?thesis
    using False by simp
qed

lemma queued_sent:
  assumes "length (outb s) = 260" "out_head s \<le> out_size s" "out_size s \<le> 260"
  shows "queued (s\<lparr>out_head := sent_head s\<rparr>) = drop 1 (queued s)"
  using assms by (simp add: queued_def sent_head_def drop_take)

lemma next_tx_queued:
  assumes "length (outb s) = 260" "out_head s \<le> out_size s" "out_size s \<le> 260"
  shows "next_tx s = (if queued s = [] then 0x00 else hd (queued s))"
  using assms by (auto simp add: queued_def next_tx_def hd_drop_conv_nth)

lemma do_spi_front:
  assumes "wf_uart s" "\<not> reply_region s"
  shows "\<exists>e. do_spi rd s =
          (let s2 = s\<lparr>out_head := sent_head s, prio_head := sent_prio s, timer_en := e\<rparr>;
               (removed, s3) = spi_filter rd s2
           in if removed then Some (next_tx s, s3)
              else do { s4 \<leftarrow> spi_watermarks s3; s5 \<leftarrow> spi_store rd s4; Some (next_tx s, s5) })"
proof -
  define s1 where "s1 = timer_start (s\<lparr>out_head := sent_head s\<rparr>)"
  have snd: "spi_send s = Some (next_tx s, s\<lparr>out_head := sent_head s\<rparr>)"
    using spi_send_Some [OF assms(1)] by (simp add: next_tx_def sent_head_def)
  have "\<not> (prio_head s1 < prio_size s1 \<and> 2 \<le> prio_head s1)" "prio_size s1 < 65536"
    using assms by (simp_all add: s1_def reply_region_def wf_uart_def)
  from spi_prio_pass [OF this, of rd] obtain e where
    e: "spi_prio rd s1 = (False, s1\<lparr>prio_head :=
          (if prio_head s1 < prio_size s1 then prio_head s1 + 1 else prio_head s1), timer_en := e\<rparr>)"
    by blast
  have "s1\<lparr>prio_head := (if prio_head s1 < prio_size s1 then prio_head s1 + 1 else prio_head s1),
           timer_en := e\<rparr> =
        s\<lparr>out_head := sent_head s, prio_head := sent_prio s, timer_en := e\<rparr>"
    by (simp add: s1_def timer_start_def sent_prio_def)
  with e have e': "spi_prio rd s1 =
      (False, s\<lparr>out_head := sent_head s, prio_head := sent_prio s, timer_en := e\<rparr>)"
    by simp
  show ?thesis
    by (rule exI [of _ e]) (simp add: do_spi_def snd s1_def [symmetric] e' Let_def)
qed

lemma do_spi_capture:
  assumes "wf_uart s" "reply_region s"
  shows "\<exists>e. do_spi rd s = Some (next_tx s,
           s\<lparr>out_head := sent_head s,
             mem := (case prio_dest s of Some p \<Rightarrow> (mem s)(p + prio_head s := rd) | None \<Rightarrow> mem s),
             prio_head := prio_head s + 1, timer_en := e\<rparr>)"
proof -
  define s1 where "s1 = timer_start (s\<lparr>out_head := sent_head s\<rparr>)"
  have snd: "spi_send s = Some (next_tx s, s\<lparr>out_head := sent_head s\<rparr>)"
    using spi_send_Some [OF assms(1)] by (simp add: next_tx_def sent_head_def)
  have "prio_head s1 < prio_size s1" "2 \<le> prio_head s1" "prio_size s1 < 65536"
    using assms by (simp_all add: s1_def reply_region_def wf_uart_def)
  from spi_prio_capture [OF this, of rd] obtain e where
    e: "spi_prio rd s1 = (True,
           s1\<lparr>mem := (case prio_dest s1 of Some p \<Rightarrow> (mem s1)(p + prio_head s1 := rd) | None \<Rightarrow> mem s1),
             prio_head := prio_head s1 + 1, timer_en := e\<rparr>)"
    by blast
  have "s1\<lparr>mem := (case prio_dest s1 of Some p \<Rightarrow> (mem s1)(p + prio_head s1 := rd) | None \<Rightarrow> mem s1),
             prio_head := prio_head s1 + 1, timer_en := e\<rparr> =
        s\<lparr>out_head := sent_head s,
             mem := (case prio_dest s of Some p \<Rightarrow> (mem s)(p + prio_head s := rd) | None \<Rightarrow> mem s),
             prio_head := prio_head s + 1, timer_en := e\<rparr>"
    by (simp add: s1_def timer_start_def split: option.splits)
  with e show ?thesis
    by (intro exI [of _ e]) (simp add: do_spi_def snd s1_def [symmetric])
qed


lemma do_spi_removed:
  assumes "wf_uart s" "\<not> reply_region s" "filtered rd s"
  shows "\<exists>e. do_spi rd s = Some (next_tx s,
           s\<lparr>out_head := sent_head s, prio_head := sent_prio s, timer_en := e,
             got_esc := (rd = 0x5C)\<rparr>)"
proof -
  from do_spi_front [OF assms(1,2), of rd] obtain e where
    e: "do_spi rd s =
          (let s2 = s\<lparr>out_head := sent_head s, prio_head := sent_prio s, timer_en := e\<rparr>;
               (removed, s3) = spi_filter rd s2
           in if removed then Some (next_tx s, s3)
              else do { s4 \<leftarrow> spi_watermarks s3; s5 \<leftarrow> spi_store rd s4; Some (next_tx s, s5) })"
    by blast
  show ?thesis
    using assms(3) by (intro exI [of _ e]) (auto simp add: e filtered_def spi_filter_def)
qed

lemma do_spi_append:
  assumes "wf_uart s" "\<not> reply_region s" "\<not> filtered rd s" "prio_room s"
  shows "\<exists>s'. do_spi rd s = Some (next_tx s, s') \<and>
           avail s' = (if in_size s = 256 then drop 8 (avail s) else avail s) @ [rd] \<and>
           in_size s' = (if in_size s = 256 then 249 else in_size s + 1) \<and>
           length (inb s') = 264 \<and> \<not> got_esc s' \<and> mem s' = mem s \<and>
           water_high s' = water_high s \<and> water_low s' = water_low s \<and> timer s' = timer s \<and>
           water_send s' = (\<not> lo_cond s \<and> (hi_cond s \<or> water_send s)) \<and>
           queued s' = (if lo_cond s then wm_frame False else []) @
                       (if hi_cond s then wm_frame True else []) @ drop 1 (queued s) \<and>
           (if hi_cond s \<or> lo_cond s
            then prio_dest s' = None \<and> prio_head s' = 0 \<and> prio_size s' = 3 \<and>
                 prio_irq_bytes s' = 0 \<and> out_head s' = 0
            else prio_dest s' = prio_dest s \<and> prio_head s' = sent_prio s \<and>
                 prio_size s' = prio_size s \<and> prio_irq_bytes s' = prio_irq_bytes s \<and>
                 outb s' = outb s \<and> out_size s' = out_size s \<and> out_head s' = sent_head s)"
proof -
  from do_spi_front [OF assms(1,2), of rd] obtain e where
    e: "do_spi rd s =
          (let s2 = s\<lparr>out_head := sent_head s, prio_head := sent_prio s, timer_en := e\<rparr>;
               (removed, s3) = spi_filter rd s2
           in if removed then Some (next_tx s, s3)
              else do { s4 \<leftarrow> spi_watermarks s3; s5 \<leftarrow> spi_store rd s4; Some (next_tx s, s5) })"
    by blast
  define s3 where "s3 = s\<lparr>out_head := sent_head s, prio_head := sent_prio s, timer_en := e,
                          got_esc := False\<rparr>"
  have flt: "spi_filter rd (s\<lparr>out_head := sent_head s, prio_head := sent_prio s, timer_en := e\<rparr>)
               = (False, s3)"
    using assms(3) by (auto simp add: filtered_def spi_filter_def s3_def)
  have d: "do_spi rd s = do { s4 \<leftarrow> spi_watermarks s3; s5 \<leftarrow> spi_store rd s4; Some (next_tx s, s5) }"
    by (simp add: e flt)
  from assms(1) have w: "length (inb s) = 264" "length (outb s) = 260" "in_size s \<le> 256"
    "out_head s \<le> out_size s" "out_size s \<le> 260"
    by (simp_all add: wf_uart_def)
  have c3: "hi_cond s3 = hi_cond s" "lo_cond s3 = lo_cond s"
    by (simp_all add: hi_cond_def lo_cond_def s3_def)
  have p3: "length (outb s3) = 260" "out_head s3 \<le> out_size s3" "out_size s3 \<le> 260"
    "hi_cond s3 \<or> lo_cond s3 \<longrightarrow> out_size s3 - out_head s3 \<le> 254"
    using w assms(4) unfolding c3 by (auto simp add: s3_def sent_head_def prio_room_def)
  have q3: "queued s3 = drop 1 (queued s)"
    using queued_sent [OF w(2,4,5)] by (simp add: s3_def queued_def)
  from spi_watermarks_room [OF p3] obtain s4 where
    s4: "spi_watermarks s3 = Some s4"
      "inb s4 = inb s3" "in_size s4 = in_size s3" "got_esc s4 = got_esc s3" "mem s4 = mem s3"
      "water_high s4 = water_high s3" "water_low s4 = water_low s3" "timer s4 = timer s3"
      "water_send s4 = (\<not> lo_cond s3 \<and> (hi_cond s3 \<or> water_send s3))"
      "queued s4 = (if lo_cond s3 then wm_frame False else []) @
                      (if hi_cond s3 then wm_frame True else []) @ queued s3"
      "(if hi_cond s3 \<or> lo_cond s3
            then prio_dest s4 = None \<and> prio_head s4 = 0 \<and> prio_size s4 = 3 \<and>
                 prio_irq_bytes s4 = 0 \<and> out_head s4 = 0
            else s4 = s3)"
    by blast
  have i4: "length (inb s4) = 264" "in_size s4 \<le> 256" "in_size s4 = in_size s"
    "avail s4 = avail s"
    using s4(2,3) w by (simp_all add: s3_def avail_def)
  from spi_store_Some [OF i4(1,2), of rd] obtain a where
    a: "spi_store rd s4 = Some (s4\<lparr>inb := a,
            in_size := (if in_size s4 = 256 then 249 else in_size s4 + 1)\<rparr>)"
      "length a = 264"
      "take (if in_size s4 = 256 then 249 else in_size s4 + 1) a =
            (if in_size s4 = 256 then drop 8 (avail s4) else avail s4) @ [rd]"
    by blast
  define s5 where "s5 = s4\<lparr>inb := a, in_size := (if in_size s = 256 then 249 else in_size s + 1)\<rparr>"
  have d5: "do_spi rd s = Some (next_tx s, s5)"
    using a(1) by (simp add: d s4(1) s5_def i4(3))
  have av: "avail s5 = (if in_size s = 256 then drop 8 (avail s) else avail s) @ [rd]"
    using a(3) unfolding i4(3) i4(4) by (simp add: s5_def avail_def)
  have q5: "queued s5 = queued s4"
    by (simp add: s5_def queued_def)
  have rest: "(if hi_cond s \<or> lo_cond s
            then prio_dest s5 = None \<and> prio_head s5 = 0 \<and> prio_size s5 = 3 \<and>
                 prio_irq_bytes s5 = 0 \<and> out_head s5 = 0
            else prio_dest s5 = prio_dest s \<and> prio_head s5 = sent_prio s \<and>
                 prio_size s5 = prio_size s \<and> prio_irq_bytes s5 = prio_irq_bytes s \<and>
                 outb s5 = outb s \<and> out_size s5 = out_size s \<and> out_head s5 = sent_head s)"
    using s4(11) unfolding c3 by (auto simp add: s5_def s3_def)
  have misc: "in_size s5 = (if in_size s = 256 then 249 else in_size s + 1)"
    "length (inb s5) = 264" "\<not> got_esc s5" "mem s5 = mem s"
    "water_high s5 = water_high s" "water_low s5 = water_low s" "timer s5 = timer s"
    "water_send s5 = (\<not> lo_cond s \<and> (hi_cond s \<or> water_send s))"
    using s4(2-9) a(2) unfolding c3 by (simp_all add: s5_def s3_def)
  have q: "queued s5 = (if lo_cond s then wm_frame False else []) @
                       (if hi_cond s then wm_frame True else []) @ drop 1 (queued s)"
    using s4(10) unfolding c3 q3 q5 .
  show ?thesis
    using d5 av misc q rest by blast
qed


section \<open>The framing filter\<close>

text \<open>
  Claim C6. A byte that \<open>do_spi\<close> receives outside the reply region of a priority
  frame is decoded by the filter: with the escape state clear, \<open>0x5C\<close> is consumed, sets
  the escape state and leaves the inbound buffer as it is; with the escape state set,
  the byte is stored whatever its value and the state is cleared; with the state clear,
  \<open>0x00\<close> and \<open>0xFF\<close> are dropped, so that \<open>uart_available\<close> does not grow; any other byte is
  stored. Storing evicts the eight oldest bytes first when the buffer holds 256.
\<close>

theorem framing_filter_decode:
  assumes "wf_uart s" and "\<not> reply_region s"
  shows "(\<not> got_esc s \<and> rd = 0x5C \<longrightarrow>
            (\<exists>tx s'. do_spi rd s = Some (tx, s') \<and> got_esc s' \<and>
               avail s' = avail s \<and> uart_available s' = uart_available s))
       \<and> (got_esc s \<and> prio_room s \<longrightarrow>
            (\<exists>tx s'. do_spi rd s = Some (tx, s') \<and> \<not> got_esc s' \<and>
               avail s' = (if in_size s = 256 then drop 8 (avail s) else avail s) @ [rd]))
       \<and> (\<not> got_esc s \<and> (rd = 0x00 \<or> rd = 0xFF) \<longrightarrow>
            (\<exists>tx s'. do_spi rd s = Some (tx, s') \<and> \<not> got_esc s' \<and>
               avail s' = avail s \<and> uart_available s' = uart_available s))
       \<and> (\<not> got_esc s \<and> rd \<noteq> 0x5C \<and> rd \<noteq> 0x00 \<and> rd \<noteq> 0xFF \<and> prio_room s \<longrightarrow>
            (\<exists>tx s'. do_spi rd s = Some (tx, s') \<and> \<not> got_esc s' \<and>
               avail s' = (if in_size s = 256 then drop 8 (avail s) else avail s) @ [rd]))"
proof -
  have removed: "\<exists>tx s'. do_spi rd s = Some (tx, s') \<and> got_esc s' = (rd = 0x5C) \<and>
      avail s' = avail s \<and> uart_available s' = uart_available s" if "filtered rd s"
  proof -
    from do_spi_removed [OF assms that] obtain e where
      "do_spi rd s = Some (next_tx s,
           s\<lparr>out_head := sent_head s, prio_head := sent_prio s, timer_en := e,
             got_esc := (rd = 0x5C)\<rparr>)" by blast
    then show ?thesis by (simp add: avail_def uart_available_def)
  qed
  have appended: "\<exists>tx s'. do_spi rd s = Some (tx, s') \<and> \<not> got_esc s' \<and>
      avail s' = (if in_size s = 256 then drop 8 (avail s) else avail s) @ [rd]"
    if "\<not> filtered rd s" "prio_room s"
  proof -
    from do_spi_append [OF assms that] show ?thesis by blast
  qed
  show ?thesis
    using removed appended by (auto simp add: filtered_def)
qed

lemma wf_uart_reset: "wf_uart uart_reset" "\<not> reply_region uart_reset" "prio_room uart_reset"
  by (simp_all add: wf_uart_def uart_reset_def reply_region_def prio_room_def)

theorem framing_filter_decode_witness:
  "wf_uart uart_reset \<and> \<not> reply_region uart_reset \<and> prio_room uart_reset \<and>
   (\<exists>tx s'. do_spi 0x5C uart_reset = Some (tx, s') \<and> got_esc s' \<and> avail s' = [] \<and>
      uart_available s' = 0) \<and>
   (\<exists>tx s'. do_spi 0x00 (uart_reset\<lparr>got_esc := True\<rparr>) = Some (tx, s') \<and> \<not> got_esc s' \<and> avail s' = [0x00]) \<and>
   (\<exists>tx s'. do_spi 0xFF uart_reset = Some (tx, s') \<and> \<not> got_esc s' \<and> avail s' = [] \<and>
      uart_available s' = 0) \<and>
   (\<exists>tx s'. do_spi 0x41 uart_reset = Some (tx, s') \<and> \<not> got_esc s' \<and> avail s' = [0x41])"
proof -
  have e: "wf_uart (uart_reset\<lparr>got_esc := True\<rparr>)" "\<not> reply_region (uart_reset\<lparr>got_esc := True\<rparr>)"
    "prio_room (uart_reset\<lparr>got_esc := True\<rparr>)"
    by (simp_all add: wf_uart_def uart_reset_def reply_region_def prio_room_def)
  have v: "got_esc uart_reset = False" "in_size uart_reset = 0" "avail uart_reset = []"
    "avail (uart_reset\<lparr>got_esc := True\<rparr>) = []" "uart_available uart_reset = 0"
    by (simp_all add: uart_reset_def avail_def uart_available_def)
  show ?thesis
    using framing_filter_decode [OF wf_uart_reset(1,2), of "0x5C"]
      framing_filter_decode [OF e(1,2), of "0x00"]
      framing_filter_decode [OF wf_uart_reset(1,2), of "0xFF"]
      framing_filter_decode [OF wf_uart_reset(1,2), of "0x41"]
    by (simp add: wf_uart_reset e v)
qed

section \<open>The inbound buffer\<close>

text \<open>
  Claim C7. A byte that passes the filter is always stored by \<open>do_spi\<close>: when the
  inbound buffer holds \<open>UART_IN_SIZE\<close> = 256 bytes, the \<open>UART_FIFO_BLOCK_SIZE\<close> = 8 oldest
  are dropped, the others keep their order, the new byte follows them, and
  \<open>uart_available\<close> is 256 - 8 + 1; below 256 the byte is appended and nothing is lost.
\<close>

theorem overflow_eviction:
  assumes "wf_uart s" and "\<not> reply_region s" and "\<not> filtered rd s" and "prio_room s"
  shows "\<exists>tx s'. do_spi rd s = Some (tx, s') \<and>
           (in_size s = UART_IN_SIZE \<longrightarrow>
              avail s' = drop UART_FIFO_BLOCK_SIZE (avail s) @ [rd] \<and>
              uart_available s' = UART_IN_SIZE - UART_FIFO_BLOCK_SIZE + 1) \<and>
           (in_size s < UART_IN_SIZE \<longrightarrow>
              avail s' = avail s @ [rd] \<and> uart_available s' = uart_available s + 1)"
proof -
  from do_spi_append [OF assms] obtain s' where
    "do_spi rd s = Some (next_tx s, s')"
    "avail s' = (if in_size s = 256 then drop 8 (avail s) else avail s) @ [rd]"
    "in_size s' = (if in_size s = 256 then 249 else in_size s + 1)"
    by blast
  then show ?thesis
    by (intro exI [of _ "next_tx s"] exI [of _ s']) (simp add: uart_available_def)
qed

theorem overflow_eviction_witness:
  "wf_uart full_in \<and> \<not> reply_region full_in \<and> \<not> filtered 0x43 full_in \<and> prio_room full_in \<and>
   in_size full_in = 256 \<and> avail full_in = replicate 8 0x41 @ replicate 248 0x42 \<and>
   (\<exists>tx s'. do_spi 0x43 full_in = Some (tx, s') \<and>
      avail s' = replicate 248 0x42 @ [0x43] \<and> uart_available s' = 249) \<and>
   wf_uart uart_reset \<and> \<not> reply_region uart_reset \<and> \<not> filtered 0x43 uart_reset \<and>
   prio_room uart_reset \<and> in_size uart_reset < 256 \<and>
   (\<exists>tx s'. do_spi 0x43 uart_reset = Some (tx, s') \<and> avail s' = [0x43] \<and> uart_available s' = 1)"
proof -
  have f: "wf_uart full_in" "\<not> reply_region full_in" "\<not> filtered 0x43 full_in" "prio_room full_in"
    by (simp_all add: full_in_def uart_reset_def wf_uart_def reply_region_def filtered_def
        prio_room_def)
  have r: "wf_uart uart_reset" "\<not> reply_region uart_reset" "\<not> filtered 0x43 uart_reset"
    "prio_room uart_reset"
    by (simp_all add: uart_reset_def wf_uart_def reply_region_def filtered_def prio_room_def)
  have v: "in_size full_in = 256" "avail full_in = replicate 8 0x41 @ replicate 248 0x42"
    "in_size uart_reset = 0" "avail uart_reset = []" "uart_available uart_reset = 0"
    by (simp_all add: full_in_def uart_reset_def avail_def uart_available_def)
  show ?thesis
    using overflow_eviction [OF f] overflow_eviction [OF r]
    by (simp add: f r v)
qed

section \<open>The priority channel: reply capture\<close>

text \<open>
  Claim C3. While a priority frame with a reply destination \<open>p\<close> is active, the byte
  received at frame offset \<open>k = prio_head\<close> with \<open>2 \<le> k\<close> is written to \<open>p + k\<close> and to no
  other place: positions 0 and 1 of the destination, the inbound buffer and the escape
  state of the filter stay as they are. The bytes received at offsets 0 and 1 are not
  written to the destination.
\<close>

theorem priority_reply_capture:
  assumes "wf_uart s" and "prio_head s < prio_size s" and "prio_dest s = Some p"
  shows "(2 \<le> prio_head s \<longrightarrow>
            (\<exists>tx s'. do_spi rd s = Some (tx, s') \<and>
               mem s' = (mem s)(p + prio_head s := rd) \<and>
               mem s' p = mem s p \<and> mem s' (p + 1) = mem s (p + 1) \<and>
               inb s' = inb s \<and> in_size s' = in_size s \<and> got_esc s' = got_esc s \<and>
               prio_head s' = prio_head s + 1))
       \<and> (prio_head s < 2 \<and> prio_room s \<longrightarrow>
            (\<exists>tx s'. do_spi rd s = Some (tx, s') \<and> mem s' = mem s))"
proof (intro conjI impI)
  assume k: "2 \<le> prio_head s"
  with assms(2) have "reply_region s" by (simp add: reply_region_def)
  from do_spi_capture [OF assms(1) this, of rd] obtain e where
    "do_spi rd s = Some (next_tx s,
           s\<lparr>out_head := sent_head s,
             mem := (case prio_dest s of Some p \<Rightarrow> (mem s)(p + prio_head s := rd) | None \<Rightarrow> mem s),
             prio_head := prio_head s + 1, timer_en := e\<rparr>)"
    by blast
  then show "\<exists>tx s'. do_spi rd s = Some (tx, s') \<and>
               mem s' = (mem s)(p + prio_head s := rd) \<and>
               mem s' p = mem s p \<and> mem s' (p + 1) = mem s (p + 1) \<and>
               inb s' = inb s \<and> in_size s' = in_size s \<and> got_esc s' = got_esc s \<and>
               prio_head s' = prio_head s + 1"
    using k assms(3) by simp
next
  assume "prio_head s < 2 \<and> prio_room s"
  then have h: "\<not> reply_region s" "prio_room s"
    by (simp_all add: reply_region_def)
  show "\<exists>tx s'. do_spi rd s = Some (tx, s') \<and> mem s' = mem s"
  proof (cases "filtered rd s")
    case True
    from do_spi_removed [OF assms(1) h(1) True] show ?thesis by auto
  next
    case False
    from do_spi_append [OF assms(1) h(1) False h(2)] show ?thesis by blast
  qed
qed

theorem priority_reply_capture_witness:
  "wf_uart ver_reply \<and> prio_head ver_reply < prio_size ver_reply \<and>
   prio_dest ver_reply = Some 100 \<and> 2 \<le> prio_head ver_reply \<and>
   (\<exists>tx s'. do_spi 0x5C ver_reply = Some (tx, s') \<and> mem s' 102 = 0x5C \<and>
      mem s' 100 = 0 \<and> mem s' 101 = 0 \<and> in_size s' = 0 \<and> \<not> got_esc s' \<and> prio_head s' = 3) \<and>
   wf_uart ver_header \<and> prio_head ver_header < prio_size ver_header \<and>
   prio_dest ver_header = Some 100 \<and> prio_head ver_header < 2 \<and> prio_room ver_header \<and>
   (\<exists>tx s'. do_spi 0x41 ver_header = Some (tx, s') \<and> mem s' 101 = 0)"
proof -
  have a: "wf_uart ver_reply" "prio_head ver_reply < prio_size ver_reply"
    "prio_dest ver_reply = Some 100"
    by (simp_all add: ver_reply_def ver_header_def uart_reset_def wf_uart_def)
  have b: "wf_uart ver_header" "prio_head ver_header < prio_size ver_header"
    "prio_dest ver_header = Some 100"
    by (simp_all add: ver_header_def uart_reset_def wf_uart_def)
  have v: "prio_head ver_reply = 2" "prio_head ver_header = 1" "prio_room ver_header"
    "mem ver_reply = (\<lambda>a. 0)" "mem ver_header = (\<lambda>a. 0)"
    "in_size ver_reply = 0" "got_esc ver_reply = False"
    by (simp_all add: ver_reply_def ver_header_def uart_reset_def prio_room_def)
  have c1: "\<exists>tx s'. do_spi 0x5C ver_reply = Some (tx, s') \<and> mem s' 102 = 0x5C \<and>
      mem s' 100 = 0 \<and> mem s' 101 = 0 \<and> in_size s' = 0 \<and> \<not> got_esc s' \<and> prio_head s' = 3"
    using priority_reply_capture [OF a, of "0x5C"] by (auto simp add: v)
  have c2: "\<exists>tx s'. do_spi 0x41 ver_header = Some (tx, s') \<and> mem s' 101 = 0"
    using priority_reply_capture [OF b, of "0x41"] by (auto simp add: v)
  show ?thesis
    using a b v c1 c2 by simp
qed

section \<open>What every call of \<open>uart_write_prio\<close> does\<close>

lemma move_length:
  fixes a :: "'a list"
  assumes "D + N \<le> length a" "S + N \<le> length a"
  shows "length (take D a @ take N (drop S a) @ drop (D + N) a) = length a"
proof -
  have "min (length a) D = D" "min (length a - S) N = N"
    using assms by linarith+
  then show ?thesis using assms by simp
qed

lemma memmove_arr_length: "memmove_arr a d s n = Some b \<Longrightarrow> length b = length a"
proof -
  assume h: "memmove_arr a d s n = Some b"
  then have c: "0 \<le> d" "0 \<le> s" "0 \<le> n" "d + n \<le> int (length a)" "s + n \<le> int (length a)"
    and b: "b = take (nat d) a @ take (nat n) (drop (nat s) a) @ drop (nat (d + n)) a"
    by (auto simp add: memmove_arr_def split: if_splits)
  have k: "nat d + nat n \<le> length a" "nat s + nat n \<le> length a" "nat (d + n) = nat d + nat n"
    using c by (simp_all add: nat_add_distrib)
  show ?thesis
    unfolding b k(3) using k(1,2) by (rule move_length)
qed

lemma write_prio_front:
  assumes "sz \<le> 260" and "uart_write_prio buf sz dest irq s = Some t"
  shows "out_head t = 0 \<and> take sz (outb t) = take sz buf \<and> sz \<le> length buf \<and>
         length (outb t) = length (outb s) \<and>
         out_size t = u16 (int sz + int (out_size s) - int (out_head s)) \<and>
         prio_dest t = dest \<and> prio_head t = 0 \<and> prio_size t = sz \<and> prio_irq_bytes t = irq"
proof -
  have l: "\<not> 260 < int sz" using assms(1) by simp
  from assms(2) obtain a b where
    mm: "(if int sz + int (out_size (lock s)) - int (out_head (lock s)) \<le> 256 + 4
              then memmove_arr (outb (lock s)) (int sz) (int (out_head (lock s)))
                     (int (out_size (lock s)) - int (out_head (lock s)))
              else memmove_arr (outb (lock s)) (int sz)
                     (int (out_size (lock s)) - 256 + 4 - int sz)
                     (256 + 4 - int sz)) = Some a"
    and mc: "memcpy_arr a buf sz = Some b"
    and t: "t = unlock ((lock s)\<lparr>outb := b,
                        out_size := u16 (int sz + int (out_size (lock s)) - int (out_head (lock s))),
                        out_head := 0, prio_dest := dest, prio_head := 0,
                        prio_irq_bytes := irq, prio_size := sz\<rparr>)"
    unfolding uart_write_prio_def Let_def using l
    by (simp split: bind_splits)
  have la: "length a = length (outb s)"
    using mm by (cases "int sz + int (out_size (lock s)) - int (out_head (lock s)) \<le> 256 + 4")
      (simp_all add: memmove_arr_length)
  from mc have b: "sz \<le> length a" "sz \<le> length buf" "b = take sz buf @ drop sz a"
    by (auto simp add: memcpy_arr_def split: if_splits)
  show ?thesis
    using b la by (simp add: t)
qed


lemma write_prio_overflow_Some:
  assumes "length (outb s) = 260" and "sz \<le> length buf" and "sz \<le> 260"
    and "out_head s \<le> out_size s"
    and "260 < sz + (out_size s - out_head s)"
    and "252 + sz \<le> out_size s" and "out_size s \<le> 252 + 2 * sz"
  shows "\<exists>t. uart_write_prio buf sz dest irq s = Some t"
proof -
  define src where "src = out_size s - 252 - sz"
  define n where "n = 260 - sz"
  define a where "a = take sz (outb s) @ take n (drop src (outb s)) @ drop (sz + n) (outb s)"
  have c1: "\<not> 256 + 4 < int sz"
    using assms(3) by linarith
  have c2: "\<not> int sz + int (out_size s) - int (out_head s) \<le> 256 + 4"
    using assms(4,5) by linarith
  have e1: "int (out_size s) - 256 + 4 - int sz = int src"
    unfolding src_def using assms(6) by linarith
  have e2: "256 + 4 - int sz = int n"
    unfolding n_def using assms(3) by linarith
  have b: "sz + n \<le> length (outb s)" "src + n \<le> length (outb s)"
    unfolding src_def n_def using assms(1,3,6,7) by linarith+
  have mm: "memmove_arr (outb s) (int sz) (int src) (int n) = Some a"
    unfolding a_def using b by (rule memmove_arr_Some)
  have la: "length a = length (outb s)"
    using mm by (rule memmove_arr_length)
  have mc: "memcpy_arr a buf sz = Some (take sz buf @ drop sz a)"
    using assms(1,2,3) la by (intro memcpy_arr_Some) simp_all
  have "uart_write_prio buf sz dest irq s =
      Some (unlock ((lock s)\<lparr>outb := take sz buf @ drop sz a,
                        out_size := u16 (int sz + int (out_size s) - int (out_head s)),
                        out_head := 0, prio_dest := dest, prio_head := 0,
                        prio_irq_bytes := irq, prio_size := sz\<rparr>))"
    unfolding uart_write_prio_def Let_def lock_simps e1 e2
    by (simp only: c1 c2 if_False mm mc bind.bind_lunit)
  then show ?thesis by blast
qed

section \<open>The priority channel: enqueueing\<close>

text \<open>
  Claim C2 as stated fails where the frame and the queue do not fit together. With 259
  bytes queued and a frame of 6, \<open>uart_write_prio\<close> takes its overflow branch, leaves
  \<open>out_size\<close> = 265, beyond the 260 bytes of the array, and drops the first byte of the
  queue, the one due to be sent next, not its tail.
\<close>

theorem prio_enqueue_overflow_counterexample:
  "wf_uart nearly_full \<and> uart_write_prio bps_frame 6 None 0 nearly_full \<noteq> None \<and>
   out_size (the (uart_write_prio bps_frame 6 None 0 nearly_full)) = 265 \<and>
   \<not> out_size (the (uart_write_prio bps_frame 6 None 0 nearly_full)) \<le> 260 \<and>
   take 8 (outb (the (uart_write_prio bps_frame 6 None 0 nearly_full))) =
     bps_frame @ [0x42, 0x2E] \<and>
   take 2 (queued nearly_full) = [0x41, 0x42]"
  by (simp add: uart_write_prio_def memmove_arr_def memcpy_arr_def lock_def unlock_def
      nearly_full_def uart_reset_def bps_frame_def u16_def queued_def wf_uart_def)

text \<open>
  Claim C2, amended. Where the frame and the bytes not yet transmitted fit into the
  array together, \<open>uart_write_prio\<close> puts the frame at offset 0 with the cursor on it,
  the queue follows it in order with nothing dropped, the length stays within
  \<open>UART_OUT_SIZE + UART_OUT_EMERG\<close>, and the next byte transmitted is the first of the
  frame. Where they do not fit, a frame of at most 260 bytes is at offset 0 with the
  cursor on it all the same whenever the call is defined, which it is when the range
  the overflow branch copies from lies inside the array
  (\<open>252 + size \<le> out_size \<le> 252 + 2 * size\<close>); which queued bytes follow the frame
  there, and the length, are left open. A frame longer than the array changes no buffer.
\<close>

theorem prio_enqueue_front:
  assumes "wf_uart s" and "sz \<le> length buf"
  shows "(sz + (out_size s - out_head s) \<le> UART_OUT_SIZE + UART_OUT_EMERG \<longrightarrow>
            (\<exists>t. uart_write_prio buf sz dest irq s = Some t \<and>
               out_head t = 0 \<and> take sz (outb t) = take sz buf \<and>
               queued t = take sz buf @ queued s \<and>
               out_size t = sz + length (queued s) \<and>
               out_size t \<le> UART_OUT_SIZE + UART_OUT_EMERG \<and>
               (0 < sz \<longrightarrow> spi_send t = Some (buf ! 0, t\<lparr>out_head := 1\<rparr>))))
       \<and> (sz \<le> UART_OUT_SIZE + UART_OUT_EMERG \<longrightarrow>
            (\<forall>t. uart_write_prio buf sz dest irq s = Some t \<longrightarrow>
               out_head t = 0 \<and> take sz (outb t) = take sz buf \<and>
               (0 < sz \<longrightarrow> spi_send t = Some (buf ! 0, t\<lparr>out_head := 1\<rparr>))))
       \<and> (sz \<le> UART_OUT_SIZE + UART_OUT_EMERG \<and>
          UART_OUT_SIZE + UART_OUT_EMERG < sz + (out_size s - out_head s) \<and>
          252 + sz \<le> out_size s \<and> out_size s \<le> 252 + 2 * sz \<longrightarrow>
            (\<exists>t. uart_write_prio buf sz dest irq s = Some t))
       \<and> (UART_OUT_SIZE + UART_OUT_EMERG < sz \<longrightarrow>
            uart_write_prio buf sz dest irq s = Some (lock s))"
proof -
  from assms(1) have w: "length (outb s) = 260" "out_head s \<le> out_size s" "out_size s \<le> 260"
    by (simp_all add: wf_uart_def)
  have front: "out_head t = 0 \<and> take sz (outb t) = take sz buf \<and>
               (0 < sz \<longrightarrow> spi_send t = Some (buf ! 0, t\<lparr>out_head := 1\<rparr>))"
    if le: "sz \<le> 260" and t: "uart_write_prio buf sz dest irq s = Some t" for t
  proof -
    from write_prio_front [OF le t] have p: "out_head t = 0" "take sz (outb t) = take sz buf"
      "length (outb t) = 260" "out_size t = u16 (int sz + int (out_size s) - int (out_head s))"
      using w(1) by simp_all
    have snd: "spi_send t = Some (buf ! 0, t\<lparr>out_head := 1\<rparr>)" if pos: "0 < sz"
    proof -
      have "int sz + int (out_size s) - int (out_head s) = int (sz + (out_size s - out_head s))"
        using w(2) by simp
      moreover have "sz + (out_size s - out_head s) < 65536"
        using le w by simp
      ultimately have "out_size t = sz + (out_size s - out_head s)"
        using p(4) by simp
      then have os: "0 < out_size t" using pos by simp
      have "take sz (outb t) ! 0 = take sz buf ! 0" using p(2) by simp
      then have "outb t ! 0 = buf ! 0" using pos by simp
      then show ?thesis
        using os p(1,3) by (simp add: spi_send_def load_arr_def)
    qed
    show ?thesis using p(1,2) snd by simp
  qed
  have fit: "\<exists>t. uart_write_prio buf sz dest irq s = Some t \<and>
               out_head t = 0 \<and> take sz (outb t) = take sz buf \<and>
               queued t = take sz buf @ queued s \<and>
               out_size t = sz + length (queued s) \<and>
               out_size t \<le> 260 \<and>
               (0 < sz \<longrightarrow> spi_send t = Some (buf ! 0, t\<lparr>out_head := 1\<rparr>))"
    if f: "sz + (out_size s - out_head s) \<le> 260"
  proof -
    note eq = write_prio_fits [OF w(1,2) assms(2) f w(3), of dest irq]
    have l: "length (queued s) = out_size s - out_head s"
      using w by (simp add: length_queued)
    define t where "t = the (uart_write_prio buf sz dest irq s)"
    have t: "uart_write_prio buf sz dest irq s = Some t"
      by (simp add: t_def eq)
    have q: "queued t = take sz buf @ queued s"
      using queued_write_prio [OF w(1,2) assms(2) f w(3) t] .
    have o: "out_size t = sz + (out_size s - out_head s)"
      by (simp add: t_def eq)
    have le: "sz \<le> 260" using f by simp
    show ?thesis
      using t q o l f front [OF le t] by (intro exI [of _ t]) simp
  qed
  have over: "\<exists>t. uart_write_prio buf sz dest irq s = Some t"
    if "sz \<le> 260" "260 < sz + (out_size s - out_head s)" "252 + sz \<le> out_size s"
      "out_size s \<le> 252 + 2 * sz"
    using write_prio_overflow_Some [OF w(1) assms(2) that(1) w(2) that(2,3,4)] .
  have big: "uart_write_prio buf sz dest irq s = Some (lock s)" if "260 < sz"
    using that by (simp add: uart_write_prio_def)
  show ?thesis
    using front fit over big by simp
qed

theorem prio_enqueue_front_witness:
  "wf_uart two_queued \<and> 6 \<le> length bps_frame \<and>
   6 + (out_size two_queued - out_head two_queued) \<le> (260::nat) \<and>
   (\<exists>t. uart_write_prio bps_frame 6 None 0 two_queued = Some t \<and> out_head t = 0 \<and>
      take 6 (outb t) = bps_frame \<and> queued t = bps_frame @ [0x41, 0x42] \<and> out_size t = 8 \<and>
      spi_send t = Some (0x5C, t\<lparr>out_head := 1\<rparr>)) \<and>
   wf_uart nearly_full \<and> (6::nat) \<le> 260 \<and>
   (260::nat) < 6 + (out_size nearly_full - out_head nearly_full) \<and>
   252 + 6 \<le> out_size nearly_full \<and> out_size nearly_full \<le> 252 + 2 * 6 \<and>
   (\<exists>t. uart_write_prio bps_frame 6 None 0 nearly_full = Some t \<and> out_head t = 0 \<and>
      take 6 (outb t) = bps_frame \<and> spi_send t = Some (0x5C, t\<lparr>out_head := 1\<rparr>)) \<and>
   261 \<le> length (replicate 261 (0::u8)) \<and> (260::nat) < 261 \<and>
   uart_write_prio (replicate 261 0) 261 None 0 two_queued = Some (lock two_queued)"
proof -
  have a: "wf_uart two_queued" "6 \<le> length bps_frame"
    by (simp_all add: two_queued_def uart_reset_def wf_uart_def bps_frame_def)
  have n: "wf_uart nearly_full"
    by (simp add: nearly_full_def uart_reset_def wf_uart_def)
  have b: "261 \<le> length (replicate 261 (0::u8))" by simp
  have v: "out_size two_queued = 2" "out_head two_queued = 0" "queued two_queued = [0x41, 0x42]"
    "take 6 bps_frame = bps_frame" "bps_frame ! 0 = 0x5C"
    "out_size nearly_full = 259" "out_head nearly_full = 0"
    by (simp_all add: two_queued_def nearly_full_def uart_reset_def queued_def bps_frame_def)
  have c1: "\<exists>t. uart_write_prio bps_frame 6 None 0 two_queued = Some t \<and> out_head t = 0 \<and>
      take 6 (outb t) = bps_frame \<and> queued t = bps_frame @ [0x41, 0x42] \<and> out_size t = 8 \<and>
      spi_send t = Some (0x5C, t\<lparr>out_head := 1\<rparr>)"
    using prio_enqueue_front [OF a, of None 0] by (auto simp add: v)
  have c2: "uart_write_prio (replicate 261 0) 261 None 0 two_queued = Some (lock two_queued)"
    using prio_enqueue_front [OF a(1) b, of None 0] by simp
  have c3: "\<exists>t. uart_write_prio bps_frame 6 None 0 nearly_full = Some t \<and> out_head t = 0 \<and>
      take 6 (outb t) = bps_frame \<and> spi_send t = Some (0x5C, t\<lparr>out_head := 1\<rparr>)"
    using prio_enqueue_front [OF n a(2), of None 0] by (auto simp add: v)
  show ?thesis
    using a n v c1 c2 c3 by simp
qed

section \<open>The priority channel: a frame enqueued over an active one\<close>

lemma spi_send_mem:
  "spi_send s = Some (tx, t) \<Longrightarrow> mem t = mem s \<and> prio_dest t = prio_dest s"
  by (auto simp add: spi_send_def load_arr_def split: if_splits)

lemma spi_prio_mem:
  "spi_prio rd s = (f, t) \<Longrightarrow> prio_dest s = None \<Longrightarrow> mem t = mem s \<and> prio_dest t = None"
  by (auto simp add: spi_prio_def Let_def split: if_splits)

lemma spi_filter_mem:
  "spi_filter rd s = (f, t) \<Longrightarrow> mem t = mem s \<and> prio_dest t = prio_dest s"
  by (auto simp add: spi_filter_def split: if_splits)

lemma send_watermark_mem:
  "send_watermark h s = Some t \<Longrightarrow> mem t = mem s \<and> prio_dest t = None"
  by (auto simp add: send_watermark_def uart_write_prio_def Let_def split: if_splits bind_splits)

lemma spi_watermarks_mem:
  assumes "spi_watermarks s = Some t" "prio_dest s = None"
  shows "mem t = mem s \<and> prio_dest t = None"
  using assms
  by (auto simp add: spi_watermarks_def split: if_splits bind_splits dest!: send_watermark_mem)

lemma spi_store_mem:
  "spi_store rd s = Some t \<Longrightarrow> mem t = mem s \<and> prio_dest t = prio_dest s"
  by (auto simp add: spi_store_def split: if_splits bind_splits)

lemma do_spi_mem:
  assumes "do_spi rd s = Some (tx, t)" "prio_dest s = None"
  shows "mem t = mem s \<and> prio_dest t = None"
proof -
  from assms(1) obtain tx0 s1 where s1: "spi_send s = Some (tx0, s1)"
    by (auto simp add: do_spi_def split: bind_splits)
  obtain f s2 where s2: "spi_prio rd (timer_start s1) = (f, s2)"
    by (cases "spi_prio rd (timer_start s1)")
  obtain r s3 where s3: "spi_filter rd s2 = (r, s3)"
    by (cases "spi_filter rd s2")
  have m1: "mem s1 = mem s" "prio_dest s1 = None"
    using spi_send_mem [OF s1] assms(2) by simp_all
  have m2: "mem s2 = mem s" "prio_dest s2 = None"
    using spi_prio_mem [OF s2] m1 by simp_all
  have m3: "mem s3 = mem s" "prio_dest s3 = None"
    using spi_filter_mem [OF s3] m2 by simp_all
  show ?thesis
  proof (cases "f \<or> r")
    case True
    then have "t = s2 \<or> t = s3"
      using assms(1) by (auto simp add: do_spi_def s1 s2 s3 split: if_splits)
    then show ?thesis using m2 m3 by auto
  next
    case False
    then obtain s4 where s4: "spi_watermarks s3 = Some s4" and s5: "spi_store rd s4 = Some t"
      using assms(1) by (auto simp add: do_spi_def s1 s2 s3 split: bind_splits)
    show ?thesis
      using spi_watermarks_mem [OF s4 m3(2)] spi_store_mem [OF s5] m3 by simp
  qed
qed

lemma spi_run_mem:
  "spi_run rds s = Some (txs, t) \<Longrightarrow> prio_dest s = None \<Longrightarrow> mem t = mem s"
proof (induction rds arbitrary: s txs)
  case Nil
  then show ?case by simp
next
  case (Cons rd rds)
  from Cons.prems(1) obtain tx s1 txs' where
    a: "do_spi rd s = Some (tx, s1)" and b: "spi_run rds s1 = Some (txs', t)"
    by (auto split: bind_splits)
  from do_spi_mem [OF a Cons.prems(2)] Cons.IH [OF b] show ?case by simp
qed

lemma send_watermark_wf:
  assumes "length (outb s) = 260" "out_head s \<le> out_size s" "out_size s \<le> 260"
    and "out_size s - out_head s \<le> 257" and "send_watermark h s = Some t"
  shows "length (outb t) = 260 \<and> out_head t = 0 \<and>
         out_size t = 3 + (out_size s - out_head s) \<and> prio_size t = 3"
  using send_watermark_props [OF assms(1-4), of h] assms(5) by auto

lemma spi_watermarks_wf:
  assumes "length (outb s) = 260" "out_head s \<le> out_size s" "out_size s \<le> 260"
    and "hi_cond s \<or> lo_cond s \<longrightarrow> out_size s - out_head s \<le> 254"
    and "prio_size s < 65536" and "spi_watermarks s = Some t"
  shows "length (outb t) = 260 \<and> out_head t \<le> out_size t \<and> out_size t \<le> 260 \<and>
         prio_size t < 65536"
proof (cases "hi_cond s \<or> lo_cond s")
  case False
  then have "spi_watermarks s = Some s" by (simp add: spi_watermarks_idle)
  with assms(6) have "t = s" by simp
  then show ?thesis using assms(1-3,5) by simp
next
  case True
  with assms(4) have room: "out_size s - out_head s \<le> 254" by simp
  from assms(6) obtain s1 where
    first: "(if 0 < water_high s \<and> int (in_size s) + 1 \<ge> int (water_high s) \<and> \<not> water_send s
            then do { t \<leftarrow> send_watermark True s; Some (t\<lparr>water_send := True\<rparr>) }
            else Some s) = Some s1"
    and second: "(if 0 < water_low s1 \<and> int (in_size s1) + 1 \<le> int (water_low s1) \<and> water_send s1
     then do { t \<leftarrow> send_watermark False s1; Some (t\<lparr>water_send := False\<rparr>) }
     else Some s1) = Some t"
    unfolding spi_watermarks_def by (auto split: bind_splits)
  have p1: "length (outb s1) = 260 \<and> out_head s1 \<le> out_size s1 \<and> out_size s1 \<le> 260 \<and>
      out_size s1 - out_head s1 \<le> 257 \<and> prio_size s1 < 65536"
  proof (cases "0 < water_high s \<and> int (in_size s) + 1 \<ge> int (water_high s) \<and> \<not> water_send s")
    case hi: True
    with first obtain t1 where t1: "send_watermark True s = Some t1"
      and s1: "s1 = t1\<lparr>water_send := True\<rparr>"
      by (auto split: bind_splits)
    have "out_size s - out_head s \<le> 257" using room by simp
    from send_watermark_wf [OF assms(1-3) this t1] show ?thesis
      using room by (simp add: s1)
  next
    case lo: False
    with first have "s1 = s" by simp
    then show ?thesis using assms(1-3,5) room by simp
  qed
  show ?thesis
  proof (cases "0 < water_low s1 \<and> int (in_size s1) + 1 \<le> int (water_low s1) \<and> water_send s1")
    case fire: True
    with second obtain t2 where t2: "send_watermark False s1 = Some t2"
      and t: "t = t2\<lparr>water_send := False\<rparr>"
      by (auto split: bind_splits)
    from p1 have q: "length (outb s1) = 260" "out_head s1 \<le> out_size s1" "out_size s1 \<le> 260"
      "out_size s1 - out_head s1 \<le> 257"
      by simp_all
    from send_watermark_wf [OF q t2] q(4) show ?thesis
      by (simp add: t)
  next
    case quiet: False
    with second have "t = s1" by simp
    then show ?thesis using p1 by simp
  qed
qed

lemma do_spi_append_wf:
  assumes "wf_uart s" "\<not> reply_region s" "\<not> filtered rd s" "prio_room s"
    and "do_spi rd s = Some (tx, s')"
  shows "wf_uart s'"
proof -
  from do_spi_front [OF assms(1,2), of rd] obtain e where
    e: "do_spi rd s =
          (let s2 = s\<lparr>out_head := sent_head s, prio_head := sent_prio s, timer_en := e\<rparr>;
               (removed, s3) = spi_filter rd s2
           in if removed then Some (next_tx s, s3)
              else do { s4 \<leftarrow> spi_watermarks s3; s5 \<leftarrow> spi_store rd s4; Some (next_tx s, s5) })"
    by blast
  define s3 where "s3 = s\<lparr>out_head := sent_head s, prio_head := sent_prio s, timer_en := e,
                          got_esc := False\<rparr>"
  have flt: "spi_filter rd (s\<lparr>out_head := sent_head s, prio_head := sent_prio s, timer_en := e\<rparr>)
               = (False, s3)"
    using assms(3) by (auto simp add: filtered_def spi_filter_def s3_def)
  have d: "do_spi rd s = do { s4 \<leftarrow> spi_watermarks s3; s5 \<leftarrow> spi_store rd s4; Some (next_tx s, s5) }"
    by (simp add: e flt)
  from assms(5) obtain s4 where s4: "spi_watermarks s3 = Some s4"
    and st: "spi_store rd s4 = Some s'"
    unfolding d by (auto split: bind_splits)
  from assms(1) have w: "length (inb s) = 264" "length (outb s) = 260" "in_size s \<le> 256"
    "out_head s \<le> out_size s" "out_size s \<le> 260" "prio_size s < 65536"
    by (simp_all add: wf_uart_def)
  have c3: "hi_cond s3 = hi_cond s" "lo_cond s3 = lo_cond s"
    by (simp_all add: hi_cond_def lo_cond_def s3_def)
  have p3: "length (outb s3) = 260" "out_head s3 \<le> out_size s3" "out_size s3 \<le> 260"
    "hi_cond s3 \<or> lo_cond s3 \<longrightarrow> out_size s3 - out_head s3 \<le> 254"
    using w assms(4) unfolding c3 by (auto simp add: s3_def sent_head_def prio_room_def)
  have ps: "prio_size s3 < 65536" using w(6) by (simp add: s3_def)
  from spi_watermarks_wf [OF p3 ps s4] have o4: "length (outb s4) = 260"
    "out_head s4 \<le> out_size s4" "out_size s4 \<le> 260" "prio_size s4 < 65536"
    by simp_all
  from spi_watermarks_room [OF p3] s4 have i4: "inb s4 = inb s3" "in_size s4 = in_size s3"
    by auto
  have j4: "length (inb s4) = 264" "in_size s4 \<le> 256"
    using i4 w by (simp_all add: s3_def)
  from spi_store_Some [OF j4, of rd] st obtain a where
    a: "s' = s4\<lparr>inb := a, in_size := (if in_size s4 = 256 then 249 else in_size s4 + 1)\<rparr>"
      "length a = 264"
    by auto
  show ?thesis
    using o4 j4(2) a(2) by (simp add: a(1) wf_uart_def)
qed

lemma idle_tick:
  assumes "wf_uart u" "prio_head u < 2" "prio_head u < prio_size u" "\<not> got_esc u"
    and "r = 0x00 \<or> r = 0xFF"
  shows "\<exists>tx u1. do_spi r u = Some (tx, u1) \<and> wf_uart u1 \<and> prio_head u1 = prio_head u + 1 \<and>
           prio_size u1 = prio_size u \<and> prio_dest u1 = prio_dest u \<and> mem u1 = mem u \<and>
           \<not> got_esc u1"
proof -
  have nr: "\<not> reply_region u" using assms(2) by (simp add: reply_region_def)
  have f: "filtered r u" using assms(4,5) by (auto simp add: filtered_def)
  from do_spi_removed [OF assms(1) nr f] obtain e where
    e: "do_spi r u = Some (next_tx u,
           u\<lparr>out_head := sent_head u, prio_head := sent_prio u, timer_en := e,
             got_esc := (r = 0x5C)\<rparr>)"
    by blast
  have n5: "r \<noteq> 0x5C" using assms(5) by auto
  show ?thesis
    using assms(1,3) n5 unfolding e
    by (auto simp add: wf_uart_def sent_head_def sent_prio_def)
qed

lemma capture_tick:
  assumes "wf_uart u" "prio_head u = 2" "prio_size u = 3" "prio_dest u = None"
  shows "\<exists>tx u1. do_spi r u = Some (tx, u1) \<and> prio_head u1 = 3 \<and> prio_size u1 = 3 \<and>
           mem u1 = mem u"
proof -
  have rr: "reply_region u" using assms(2,3) by (simp add: reply_region_def)
  from do_spi_capture [OF assms(1) rr, of r] obtain e where
    "do_spi r u = Some (next_tx u,
           u\<lparr>out_head := sent_head u,
             mem := (case prio_dest u of Some p \<Rightarrow> (mem u)(p + prio_head u := r) | None \<Rightarrow> mem u),
             prio_head := prio_head u + 1, timer_en := e\<rparr>)"
    by blast
  then show ?thesis
    using assms(2-4) by simp
qed

lemma notice_awaited:
  assumes "wf_uart u" "prio_head u = 0" "prio_size u = 3" "prio_dest u = None" "\<not> got_esc u"
    and "r1 = 0x00 \<or> r1 = 0xFF" and "r2 = 0x00 \<or> r2 = 0xFF"
    and "timeout = 0 \<or> now - start \<le> int timeout"
  shows "uart_wait_prio timeout start [] u = None \<and>
         uart_wait_prio timeout start [([r1, r2], now)] u = None \<and>
         (\<exists>t. uart_wait_prio timeout start [([r1, r2, r3], now)] u = Some (True, t) \<and>
            prio_size t = 0 \<and> prio_head t = 0 \<and> mem t = mem u)"
proof -
  have a0: "prio_head u < 2" "prio_head u < prio_size u" using assms(2,3) by simp_all
  from idle_tick [OF assms(1) a0 assms(5,6)] obtain t1 u1 where
    u1: "do_spi r1 u = Some (t1, u1)" "wf_uart u1" "prio_head u1 = 1" "prio_size u1 = 3"
      "prio_dest u1 = None" "mem u1 = mem u" "\<not> got_esc u1"
    using assms(2-4) by auto
  have a1: "prio_head u1 < 2" "prio_head u1 < prio_size u1" using u1(3,4) by simp_all
  from idle_tick [OF u1(2) a1 u1(7) assms(7)] obtain t2 u2 where
    u2: "do_spi r2 u1 = Some (t2, u2)" "wf_uart u2" "prio_head u2 = 2" "prio_size u2 = 3"
      "prio_dest u2 = None" "mem u2 = mem u"
    using u1(3-6) by auto
  from capture_tick [OF u2(2-5), of r3] obtain t3 u3 where
    u3: "do_spi r3 u2 = Some (t3, u3)" "prio_head u3 = 3" "prio_size u3 = 3" "mem u3 = mem u"
    using u2(6) by auto
  have r2: "spi_run [r1, r2] u = Some ([t1, t2], u2)"
    by (simp add: u1(1) u2(1))
  have r3: "spi_run [r1, r2, r3] u = Some ([t1, t2, t3], u3)"
    by (simp add: u1(1) u2(1) u3(1))
  have w0: "uart_wait_prio timeout start [] u = None"
    using assms(2,3) by simp
  have w2: "uart_wait_prio timeout start [([r1, r2], now)] u = None"
    using assms(2,3,8) u2(3,4) unfolding uart_wait_prio.simps r2 by auto
  have w3: "uart_wait_prio timeout start [([r1, r2, r3], now)] u =
      Some (True, u3\<lparr>prio_size := 0, prio_head := 0\<rparr>)"
    using assms(2,3,8) u3(2,3) unfolding uart_wait_prio.simps r3 by auto
  show ?thesis
    using w0 w2 w3 u3(4) by simp
qed

text \<open>
  Claim C10. \<open>uart_write_prio\<close> does not ask whether a frame is active: whenever it
  returns for a frame of at most 260 bytes, in either branch, the reply destination,
  the sent-count, the length and the suspend mask are those of the new frame. In
  particular a step of \<open>do_spi\<close> that stores a byte during the two header bytes of a
  reply-capturing frame and crosses a watermark replaces that frame by the notice: the
  destination is null from then on, so no later step writes to the caller's memory,
  and a pending \<open>uart_wait_prio\<close> follows the notice, whatever the length of the old
  frame was: it still waits after two more bytes on an idle line and reports completion
  after the third.
\<close>

theorem prio_enqueue_overwrites:
  assumes "wf_uart s" and "prio_head s < prio_size s"
  shows "(sz \<le> length buf \<and> sz + (out_size s - out_head s) \<le> 260 \<longrightarrow>
            (\<exists>t. uart_write_prio buf sz dest irq s = Some t \<and>
               prio_dest t = dest \<and> prio_head t = 0 \<and> prio_size t = sz \<and>
               prio_irq_bytes t = irq))
       \<and> (sz \<le> 260 \<longrightarrow>
            (\<forall>t. uart_write_prio buf sz dest irq s = Some t \<longrightarrow>
               prio_dest t = dest \<and> prio_head t = 0 \<and> prio_size t = sz \<and>
               prio_irq_bytes t = irq))
       \<and> (prio_head s < 2 \<and> prio_dest s = Some p \<and> \<not> filtered rd s \<and> prio_room s \<and>
          (hi_cond s \<or> lo_cond s) \<longrightarrow>
            (\<exists>tx s'. do_spi rd s = Some (tx, s') \<and>
               prio_dest s' = None \<and> prio_head s' = 0 \<and> prio_size s' = 3 \<and>
               prio_irq_bytes s' = 0 \<and> take 2 (queued s') = [0x5C, 0x77] \<and>
               (\<forall>rds txs s''. spi_run rds s' = Some (txs, s'') \<longrightarrow> mem s'' = mem s) \<and>
               (\<forall>timeout start. uart_wait_prio timeout start [] s' = None) \<and>
               (\<forall>timeout start now r1 r2 r3.
                  (r1 = 0x00 \<or> r1 = 0xFF) \<and> (r2 = 0x00 \<or> r2 = 0xFF) \<and>
                  (timeout = 0 \<or> now - start \<le> int timeout) \<longrightarrow>
                    uart_wait_prio timeout start [([r1, r2], now)] s' = None \<and>
                    (\<exists>t. uart_wait_prio timeout start [([r1, r2, r3], now)] s' = Some (True, t) \<and>
                       prio_size t = 0 \<and> prio_head t = 0 \<and> mem t = mem s))))"
proof (intro conjI impI)
  assume h: "sz \<le> length buf \<and> sz + (out_size s - out_head s) \<le> 260"
  from assms(1) have w: "length (outb s) = 260" "out_head s \<le> out_size s" "out_size s \<le> 260"
    by (simp_all add: wf_uart_def)
  from h have b: "sz \<le> length buf" and f: "sz + (out_size s - out_head s) \<le> 260"
    by simp_all
  show "\<exists>t. uart_write_prio buf sz dest irq s = Some t \<and>
               prio_dest t = dest \<and> prio_head t = 0 \<and> prio_size t = sz \<and> prio_irq_bytes t = irq"
    by (simp add: write_prio_fits [OF w(1,2) b f w(3)])
next
  assume le: "sz \<le> 260"
  show "\<forall>t. uart_write_prio buf sz dest irq s = Some t \<longrightarrow>
               prio_dest t = dest \<and> prio_head t = 0 \<and> prio_size t = sz \<and> prio_irq_bytes t = irq"
    using write_prio_front [OF le] by blast
next
  assume h: "prio_head s < 2 \<and> prio_dest s = Some p \<and> \<not> filtered rd s \<and> prio_room s \<and>
          (hi_cond s \<or> lo_cond s)"
  then have nr: "\<not> reply_region s" and nf: "\<not> filtered rd s"
    and room: "prio_room s" and fire: "hi_cond s \<or> lo_cond s"
    by (simp_all add: reply_region_def)
  from do_spi_append [OF assms(1) nr nf room] fire obtain s' where
    s': "do_spi rd s = Some (next_tx s, s')" "mem s' = mem s"
      "queued s' = (if lo_cond s then wm_frame False else []) @
                       (if hi_cond s then wm_frame True else []) @ drop 1 (queued s)"
      "prio_dest s' = None" "prio_head s' = 0" "prio_size s' = 3" "prio_irq_bytes s' = 0"
      "\<not> got_esc s'"
    by auto
  have wf': "wf_uart s'"
    using do_spi_append_wf [OF assms(1) nr nf room s'(1)] .
  have q: "take 2 (queued s') = [0x5C, 0x77]"
    using fire by (auto simp add: s'(3) wm_frame_def)
  have m: "mem s'' = mem s" if "spi_run rds s' = Some (txs, s'')" for rds txs s''
    using spi_run_mem [OF that s'(4)] s'(2) by simp
  have w0: "uart_wait_prio timeout start [] s' = None" for timeout start
    using s'(5,6) by simp
  have w3: "uart_wait_prio timeout start [([r1, r2], now)] s' = None \<and>
         (\<exists>t. uart_wait_prio timeout start [([r1, r2, r3], now)] s' = Some (True, t) \<and>
            prio_size t = 0 \<and> prio_head t = 0 \<and> mem t = mem s)"
    if "(r1 = 0x00 \<or> r1 = 0xFF) \<and> (r2 = 0x00 \<or> r2 = 0xFF) \<and>
        (timeout = 0 \<or> now - start \<le> int timeout)"
    for timeout start now r1 r2 r3
  proof -
    from that have c: "r1 = 0x00 \<or> r1 = 0xFF" "r2 = 0x00 \<or> r2 = 0xFF"
      "timeout = 0 \<or> now - start \<le> int timeout"
      by simp_all
    note n = notice_awaited [OF wf' s'(5,6,4,8) c, of r3]
    show ?thesis
      using n [THEN conjunct2] unfolding s'(2) .
  qed
  have allm: "\<forall>rds txs s''. spi_run rds s' = Some (txs, s'') \<longrightarrow> mem s'' = mem s"
    by (intro allI impI) (rule m)
  have all0: "\<forall>timeout start. uart_wait_prio timeout start [] s' = None"
    by (intro allI) (rule w0)
  have all3: "\<forall>timeout start now r1 r2 r3.
                  (r1 = 0x00 \<or> r1 = 0xFF) \<and> (r2 = 0x00 \<or> r2 = 0xFF) \<and>
                  (timeout = 0 \<or> now - start \<le> int timeout) \<longrightarrow>
                    uart_wait_prio timeout start [([r1, r2], now)] s' = None \<and>
                    (\<exists>t. uart_wait_prio timeout start [([r1, r2, r3], now)] s' = Some (True, t) \<and>
                       prio_size t = 0 \<and> prio_head t = 0 \<and> mem t = mem s)"
    by (intro allI impI) (rule w3)
  show "\<exists>tx s'. do_spi rd s = Some (tx, s') \<and>
               prio_dest s' = None \<and> prio_head s' = 0 \<and> prio_size s' = 3 \<and>
               prio_irq_bytes s' = 0 \<and> take 2 (queued s') = [0x5C, 0x77] \<and>
               (\<forall>rds txs s''. spi_run rds s' = Some (txs, s'') \<longrightarrow> mem s'' = mem s) \<and>
               (\<forall>timeout start. uart_wait_prio timeout start [] s' = None) \<and>
               (\<forall>timeout start now r1 r2 r3.
                  (r1 = 0x00 \<or> r1 = 0xFF) \<and> (r2 = 0x00 \<or> r2 = 0xFF) \<and>
                  (timeout = 0 \<or> now - start \<le> int timeout) \<longrightarrow>
                    uart_wait_prio timeout start [([r1, r2], now)] s' = None \<and>
                    (\<exists>t. uart_wait_prio timeout start [([r1, r2, r3], now)] s' = Some (True, t) \<and>
                       prio_size t = 0 \<and> prio_head t = 0 \<and> mem t = mem s))"
    by (intro exI [of _ "next_tx s"] exI [of _ s'] conjI s'(1) s'(4) s'(5) s'(6) s'(7) q
        allm all0 all3)
qed

theorem prio_enqueue_overwrites_witness:
  "wf_uart ver_header_hw \<and> prio_head ver_header_hw < prio_size ver_header_hw \<and>
   6 \<le> length bps_frame \<and> 6 + (out_size ver_header_hw - out_head ver_header_hw) \<le> (260::nat) \<and>
   (\<exists>t. uart_write_prio bps_frame 6 None 0 ver_header_hw = Some t \<and>
      prio_dest t = None \<and> prio_head t = 0 \<and> prio_size t = 6 \<and> prio_irq_bytes t = 0) \<and>
   wf_uart busy_full \<and> prio_head busy_full < prio_size busy_full \<and> (6::nat) \<le> 260 \<and>
   (\<exists>t. uart_write_prio bps_frame 6 (Some 200) 5 busy_full = Some t \<and>
      prio_dest t = Some 200 \<and> prio_head t = 0 \<and> prio_size t = 6 \<and> prio_irq_bytes t = 5) \<and>
   wf_uart bps_header_hw \<and> prio_head bps_header_hw < prio_size bps_header_hw \<and>
   prio_size bps_header_hw = 6 \<and>
   prio_head bps_header_hw < 2 \<and> prio_dest bps_header_hw = Some 100 \<and>
   \<not> filtered 0x41 bps_header_hw \<and> prio_room bps_header_hw \<and> hi_cond bps_header_hw \<and>
   (\<exists>tx s'. do_spi 0x41 bps_header_hw = Some (tx, s') \<and>
      prio_dest s' = None \<and> prio_head s' = 0 \<and> prio_size s' = 3 \<and>
      prio_irq_bytes s' = 0 \<and> take 2 (queued s') = [0x5C, 0x77] \<and>
      (\<forall>rds txs s''. spi_run rds s' = Some (txs, s'') \<longrightarrow> mem s'' = mem bps_header_hw) \<and>
      uart_wait_prio 0 0 [] s' = None \<and>
      uart_wait_prio 0 0 [([0x00, 0xFF], 1)] s' = None \<and>
      (\<exists>t. uart_wait_prio 0 0 [([0x00, 0xFF, 0x07], 1)] s' = Some (True, t) \<and>
         prio_size t = 0 \<and> prio_head t = 0 \<and> mem t = mem bps_header_hw))"
proof -
  have a: "wf_uart ver_header_hw" "prio_head ver_header_hw < prio_size ver_header_hw"
    by (simp_all add: ver_header_hw_def ver_header_def uart_reset_def wf_uart_def)
  have b: "wf_uart busy_full" "prio_head busy_full < prio_size busy_full"
    by (simp_all add: busy_full_def nearly_full_def uart_reset_def wf_uart_def)
  have c: "wf_uart bps_header_hw" "prio_head bps_header_hw < prio_size bps_header_hw"
    by (simp_all add: bps_header_hw_def bps_frame_def uart_reset_def wf_uart_def)
  have v: "6 \<le> length bps_frame" "6 + (out_size ver_header_hw - out_head ver_header_hw) \<le> (260::nat)"
    "prio_size bps_header_hw = 6"
    "prio_head bps_header_hw < 2" "prio_dest bps_header_hw = Some 100"
    "\<not> filtered 0x41 bps_header_hw" "prio_room bps_header_hw" "hi_cond bps_header_hw"
    by (simp_all add: ver_header_hw_def ver_header_def bps_header_hw_def uart_reset_def
        bps_frame_def filtered_def prio_room_def hi_cond_def)
  have c1: "\<exists>t. uart_write_prio bps_frame 6 None 0 ver_header_hw = Some t \<and>
      prio_dest t = None \<and> prio_head t = 0 \<and> prio_size t = 6 \<and> prio_irq_bytes t = 0"
    using prio_enqueue_overwrites [OF a, of 6 bps_frame None 0] v by simp
  have "uart_write_prio bps_frame 6 (Some 200) 5 busy_full \<noteq> None"
    by (simp add: uart_write_prio_def memmove_arr_def memcpy_arr_def lock_def
        busy_full_def nearly_full_def uart_reset_def bps_frame_def)
  then obtain t where t: "uart_write_prio bps_frame 6 (Some 200) 5 busy_full = Some t"
    by (cases "uart_write_prio bps_frame 6 (Some 200) 5 busy_full") auto
  have c2: "\<exists>t. uart_write_prio bps_frame 6 (Some 200) 5 busy_full = Some t \<and>
      prio_dest t = Some 200 \<and> prio_head t = 0 \<and> prio_size t = 6 \<and> prio_irq_bytes t = 5"
    using prio_enqueue_overwrites [OF b, of 6 bps_frame "Some 200" 5] t by simp
  have prem: "prio_head bps_header_hw < 2 \<and> prio_dest bps_header_hw = Some 100 \<and>
      \<not> filtered 0x41 bps_header_hw \<and> prio_room bps_header_hw \<and>
      (hi_cond bps_header_hw \<or> lo_cond bps_header_hw)"
    using v by simp
  note th = prio_enqueue_overwrites [OF c, of _ _ _ _ 100 "0x41"]
  note concl = th [THEN conjunct2, THEN conjunct2, THEN mp, OF prem]
  from concl obtain tx s' where
    s': "do_spi 0x41 bps_header_hw = Some (tx, s')"
      "prio_dest s' = None" "prio_head s' = 0" "prio_size s' = 3"
      "prio_irq_bytes s' = 0" "take 2 (queued s') = [0x5C, 0x77]"
      "\<forall>rds txs s''. spi_run rds s' = Some (txs, s'') \<longrightarrow> mem s'' = mem bps_header_hw"
      "\<forall>timeout start. uart_wait_prio timeout start [] s' = None"
      "\<forall>timeout start now r1 r2 r3.
                  (r1 = 0x00 \<or> r1 = 0xFF) \<and> (r2 = 0x00 \<or> r2 = 0xFF) \<and>
                  (timeout = 0 \<or> now - start \<le> int timeout) \<longrightarrow>
                    uart_wait_prio timeout start [([r1, r2], now)] s' = None \<and>
                    (\<exists>t. uart_wait_prio timeout start [([r1, r2, r3], now)] s' = Some (True, t) \<and>
                       prio_size t = 0 \<and> prio_head t = 0 \<and> mem t = mem bps_header_hw)"
    by (elim exE conjE)
  have w0: "uart_wait_prio 0 0 [] s' = None"
    using s'(8) [rule_format, of 0 0] .
  have w23: "uart_wait_prio 0 0 [([0x00, 0xFF], 1)] s' = None \<and>
      (\<exists>t. uart_wait_prio 0 0 [([0x00, 0xFF, 0x07], 1)] s' = Some (True, t) \<and>
         prio_size t = 0 \<and> prio_head t = 0 \<and> mem t = mem bps_header_hw)"
    by (rule s'(9) [rule_format, of "0x00" "0xFF" 0 1 0 "0x07"]) simp
  have c3: "\<exists>tx s'. do_spi 0x41 bps_header_hw = Some (tx, s') \<and>
      prio_dest s' = None \<and> prio_head s' = 0 \<and> prio_size s' = 3 \<and>
      prio_irq_bytes s' = 0 \<and> take 2 (queued s') = [0x5C, 0x77] \<and>
      (\<forall>rds txs s''. spi_run rds s' = Some (txs, s'') \<longrightarrow> mem s'' = mem bps_header_hw) \<and>
      uart_wait_prio 0 0 [] s' = None \<and>
      uart_wait_prio 0 0 [([0x00, 0xFF], 1)] s' = None \<and>
      (\<exists>t. uart_wait_prio 0 0 [([0x00, 0xFF, 0x07], 1)] s' = Some (True, t) \<and>
         prio_size t = 0 \<and> prio_head t = 0 \<and> mem t = mem bps_header_hw)"
    by (intro exI [of _ tx] exI [of _ s'] conjI s'(1) s'(2) s'(3) s'(4) s'(5) s'(6) s'(7) w0
        w23 [THEN conjunct1] w23 [THEN conjunct2])
  show ?thesis
    by (intro conjI a b c v c1 c2 c3) simp_all
qed

section \<open>Escaping\<close>

lemma write_loop_done: "\<not> i < sz \<Longrightarrow> write_loop buf sz i ret s = Some (ret, s)"
  by (subst write_loop.simps) simp

lemma take_store_two:
  "Suc n < length a \<Longrightarrow> take (Suc (Suc n)) (a[n := x, Suc n := y]) = take n a @ [x, y]"
  by (simp add: take_Suc_conv_app_nth nth_list_update)

lemma write_loop_one:
  assumes "length (outb c) = 260" "out_size c + 2 \<le> 256"
  shows "\<exists>a. write_loop [b] 1 0 0 c =
            Some (1, c\<lparr>outb := a, out_size := out_size c + length (escape b)\<rparr>) \<and>
          take (out_size c + length (escape b)) a = take (out_size c) (outb c) @ escape b"
proof -
  consider "b = 0x00" | "b = 0x5C" | "b \<noteq> 0x00" "b \<noteq> 0x5C" by blast
  then show ?thesis
  proof cases
    case 1
    have "take (Suc (Suc (out_size c))) ((outb c)[out_size c := 0x5C, Suc (out_size c) := 0x00])
            = take (out_size c) (outb c) @ [0x5C, 0x00]"
      using assms by (intro take_store_two) simp
    then show ?thesis
      using 1 assms write_loop.simps [of "[b]" 1 0 0 c]
      by (intro exI [of _ "(outb c)[out_size c := 0x5C, Suc (out_size c) := 0x00]"])
        (simp add: write_loop_done load_arr_def store_arr_def escape_def nat_add_distrib)
  next
    case 2
    have "take (Suc (Suc (out_size c))) ((outb c)[out_size c := 0x5C, Suc (out_size c) := 0x5C])
            = take (out_size c) (outb c) @ [0x5C, 0x5C]"
      using assms by (intro take_store_two) simp
    then show ?thesis
      using 2 assms write_loop.simps [of "[b]" 1 0 0 c]
      by (intro exI [of _ "(outb c)[out_size c := 0x5C, Suc (out_size c) := 0x5C]"])
        (simp add: write_loop_done load_arr_def store_arr_def escape_def nat_add_distrib)
  next
    case 3
    have "take (Suc (out_size c)) ((outb c)[out_size c := b]) = take (out_size c) (outb c) @ [b]"
      using assms by (intro take_store_last) simp
    then show ?thesis
      using 3 assms write_loop.simps [of "[b]" 1 0 0 c]
      by (intro exI [of _ "(outb c)[out_size c := b]"])
        (simp add: write_loop_done load_arr_def store_arr_def escape_def nat_add_distrib)
  qed
qed

lemma uart_write_one:
  assumes "wf_uart s" "out_size s - out_head s + 2 \<le> 256"
  shows "\<exists>t. uart_write [b] 1 s = Some (1, t) \<and> queued t = queued s @ escape b \<and>
           out_head t = 0"
proof -
  from assms(1) have w: "length (outb s) = 260" "out_head s \<le> out_size s" "out_size s \<le> 260"
    by (simp_all add: wf_uart_def)
  define n where "n = out_size s - out_head s"
  define c where "c = (if 0 < out_head s
     then (lock s)\<lparr>outb := take n (drop (out_head s) (outb s)) @ drop n (outb s),
                   out_size := n, out_head := 0\<rparr>
     else lock s)"
  have mm: "memmove_arr (outb s) 0 (int (out_head s)) (int n) =
      Some (take n (drop (out_head s) (outb s)) @ drop n (outb s))"
    using memmove_arr_Some [of 0 n "outb s" "out_head s"] w by (simp add: n_def)
  have ni: "int (out_size s) - int (out_head s) = int n"
    using w(2) by (simp add: n_def)
  have compact: "(if 0 < out_head (lock s)
              then do { a \<leftarrow> memmove_arr (outb (lock s)) 0 (int (out_head (lock s)))
                               (int (out_size (lock s)) - int (out_head (lock s)));
                        Some ((lock s)\<lparr>outb := a,
                                out_size := u16 (int (out_size (lock s)) - int (out_head (lock s))),
                                out_head := 0\<rparr>) }
              else Some (lock s)) = Some c"
  proof -
    have "n < 65536" using w by (simp add: n_def)
    then have "u16 (int n) = n" by simp
    then show ?thesis by (simp add: c_def ni mm)
  qed
  have pc: "length (outb c) = 260" "out_size c + 2 \<le> 256" "out_head c = 0" "out_size c = n"
    "take n (outb c) = queued s"
    using w assms(2) by (auto simp add: c_def n_def queued_def)
  from write_loop_one [OF pc(1,2), of b] obtain a where
    a: "write_loop [b] 1 0 0 c = Some (1, c\<lparr>outb := a, out_size := out_size c + length (escape b)\<rparr>)"
      "take (out_size c + length (escape b)) a = take (out_size c) (outb c) @ escape b"
    by blast
  have "uart_write [b] 1 s = Some (1, unlock (c\<lparr>outb := a, out_size := out_size c + length (escape b)\<rparr>))"
    unfolding uart_write_def Let_def compact using a(1) by simp
  moreover have "queued (unlock (c\<lparr>outb := a, out_size := out_size c + length (escape b)\<rparr>))
      = queued s @ escape b"
    using a(2) pc by (simp add: queued_def)
  ultimately show ?thesis
    using pc(3) by simp
qed

lemma receive_escaped:
  assumes r: "wf_uart r" "\<not> got_esc r" "\<not> prio_head r < prio_size r" "prio_room r"
    and b: "b \<noteq> 0xFF"
  shows "\<exists>txs r'. spi_run (escape b) r = Some (txs, r') \<and>
           avail r' = (if in_size r = 256 then drop 8 (avail r) else avail r) @ [b]"
proof -
  from r have nr: "\<not> reply_region r" and room: "prio_room r"
    by (simp_all add: reply_region_def)
  show ?thesis
  proof (cases "b = 0x00 \<or> b = 0x5C")
    case True
    then have esc: "escape b = [0x5C, b]" by (auto simp add: escape_def)
    have f: "filtered 0x5C r" using r(2) by (simp add: filtered_def)
    from do_spi_removed [OF r(1) nr f] obtain e where
      e: "do_spi 0x5C r = Some (next_tx r,
           r\<lparr>out_head := sent_head r, prio_head := sent_prio r, timer_en := e, got_esc := True\<rparr>)"
      by auto
    define r1 where "r1 = r\<lparr>out_head := sent_head r, prio_head := sent_prio r, timer_en := e,
      got_esc := True\<rparr>"
    have p1: "wf_uart r1" "\<not> reply_region r1" "\<not> filtered b r1" "prio_room r1"
      using r(1,3) room
      by (auto simp add: r1_def wf_uart_def reply_region_def filtered_def sent_head_def sent_prio_def
          prio_room_def hi_cond_def lo_cond_def)
    have k1: "in_size r1 = in_size r" "avail r1 = avail r"
      by (simp_all add: r1_def avail_def)
    from do_spi_append [OF p1] obtain r' where
      r': "do_spi b r1 = Some (next_tx r1, r')"
        "avail r' = (if in_size r1 = 256 then drop 8 (avail r1) else avail r1) @ [b]"
      by blast
    have "spi_run (escape b) r = Some ([next_tx r, next_tx r1], r')"
      using e r'(1) by (simp add: esc r1_def)
    then show ?thesis using r'(2) k1 by simp
  next
    case False
    then have esc: "escape b = [b]" by (simp add: escape_def)
    have nf: "\<not> filtered b r" using False b by (simp add: filtered_def)
    from do_spi_append [OF r(1) nr nf room] obtain r' where
      r': "do_spi b r = Some (next_tx r, r')"
        "avail r' = (if in_size r = 256 then drop 8 (avail r) else avail r) @ [b]"
      by blast
    have "spi_run (escape b) r = Some ([next_tx r], r')"
      using r'(1) by (simp add: esc)
    then show ?thesis using r'(2) by simp
  qed
qed

text \<open>
  Claim C1, amended. For every byte \<open>b\<close> other than \<open>0xFF\<close>, \<open>uart_write\<close> of \<open>b\<close> accepts
  it and appends to the outbound queue \<open>[0x5C, 0x00]\<close> for \<open>0x00\<close>, \<open>[0x5C, 0x5C]\<close> for
  \<open>0x5C\<close> and \<open>b\<close> alone otherwise; \<open>do_spi\<close>, with no priority frame active and the escape
  state clear, fed these bytes stores exactly \<open>b\<close> in the inbound buffer.
\<close>

theorem escape_round_trip:
  assumes "wf_uart s" and "out_size s - out_head s + 2 \<le> UART_OUT_SIZE"
    and "wf_uart r" and "\<not> got_esc r" and "\<not> prio_head r < prio_size r" and "prio_room r"
    and "b \<noteq> 0xFF"
  shows "\<exists>t wire txs r'.
           uart_write [b] 1 s = Some (1, t) \<and> queued t = queued s @ wire \<and>
           wire = (if b = 0x00 then [0x5C, 0x00] else if b = 0x5C then [0x5C, 0x5C] else [b]) \<and>
           spi_run wire r = Some (txs, r') \<and>
           avail r' = (if in_size r = UART_IN_SIZE then drop UART_FIFO_BLOCK_SIZE (avail r)
                       else avail r) @ [b]"
proof -
  from uart_write_one [OF assms(1,2), of b] obtain t where
    t: "uart_write [b] 1 s = Some (1, t)" "queued t = queued s @ escape b"
    by blast
  from receive_escaped [OF assms(3-7)] obtain txs r' where
    r': "spi_run (escape b) r = Some (txs, r')"
      "avail r' = (if in_size r = 256 then drop 8 (avail r) else avail r) @ [b]"
    by blast
  show ?thesis
    using t r' by (intro exI [of _ t] exI [of _ "escape b"] exI [of _ txs] exI [of _ r'])
      (simp add: escape_def)
qed

theorem escape_round_trip_witness:
  "wf_uart uart_reset \<and> out_size uart_reset - out_head uart_reset + 2 \<le> (256::nat) \<and>
   \<not> got_esc uart_reset \<and> \<not> prio_head uart_reset < prio_size uart_reset \<and>
   prio_room uart_reset \<and> (0x00::u8) \<noteq> 0xFF \<and> (0x5C::u8) \<noteq> 0xFF \<and> (0x41::u8) \<noteq> 0xFF \<and>
   (\<exists>t txs r'. uart_write [0x00] 1 uart_reset = Some (1, t) \<and> queued t = [0x5C, 0x00] \<and>
      spi_run [0x5C, 0x00] uart_reset = Some (txs, r') \<and> avail r' = [0x00]) \<and>
   (\<exists>t txs r'. uart_write [0x5C] 1 uart_reset = Some (1, t) \<and> queued t = [0x5C, 0x5C] \<and>
      spi_run [0x5C, 0x5C] uart_reset = Some (txs, r') \<and> avail r' = [0x5C]) \<and>
   (\<exists>t txs r'. uart_write [0x41] 1 uart_reset = Some (1, t) \<and> queued t = [0x41] \<and>
      spi_run [0x41] uart_reset = Some (txs, r') \<and> avail r' = [0x41])"
proof -
  have a: "wf_uart uart_reset" "out_size uart_reset - out_head uart_reset + 2 \<le> 256"
    and r: "\<not> got_esc uart_reset" "\<not> prio_head uart_reset < prio_size uart_reset"
      "prio_room uart_reset"
    by (simp_all add: uart_reset_def wf_uart_def prio_room_def)
  have v: "queued uart_reset = []" "in_size uart_reset = 0" "avail uart_reset = []"
    by (simp_all add: uart_reset_def queued_def avail_def)
  have c0: "\<exists>t txs r'. uart_write [0x00] 1 uart_reset = Some (1, t) \<and> queued t = [0x5C, 0x00] \<and>
      spi_run [0x5C, 0x00] uart_reset = Some (txs, r') \<and> avail r' = [0x00]"
    using escape_round_trip [OF a a(1) r, of "0x00"] by (auto simp add: v simp del: spi_run.simps)
  have c1: "\<exists>t txs r'. uart_write [0x5C] 1 uart_reset = Some (1, t) \<and> queued t = [0x5C, 0x5C] \<and>
      spi_run [0x5C, 0x5C] uart_reset = Some (txs, r') \<and> avail r' = [0x5C]"
    using escape_round_trip [OF a a(1) r, of "0x5C"] by (auto simp add: v simp del: spi_run.simps)
  have c2: "\<exists>t txs r'. uart_write [0x41] 1 uart_reset = Some (1, t) \<and> queued t = [0x41] \<and>
      spi_run [0x41] uart_reset = Some (txs, r') \<and> avail r' = [0x41]"
    using escape_round_trip [OF a a(1) r, of "0x41"] by (auto simp add: v simp del: spi_run.simps)
  show ?thesis
    using a r c0 c1 c2 by simp
qed

text \<open>
  Claim C1 as stated fails for \<open>0xFF\<close>: \<open>uart_write\<close> accepts it and queues the single
  byte \<open>0xFF\<close>, which the filter of \<open>do_spi\<close> drops, so nothing reaches the inbound buffer.
\<close>

theorem escape_round_trip_counterexample:
  "uart_write [0xFF] 1 uart_reset \<noteq> None \<and> fst (the (uart_write [0xFF] 1 uart_reset)) = 1 \<and>
   queued (snd (the (uart_write [0xFF] 1 uart_reset))) = [0xFF] \<and>
   spi_run [0xFF] uart_reset \<noteq> None \<and>
   avail (snd (the (spi_run [0xFF] uart_reset))) = [] \<and>
   uart_available (snd (the (spi_run [0xFF] uart_reset))) = 0"
proof -
  have w: "write_loop [0xFF] 1 0 0 uart_reset =
      Some (1, uart_reset\<lparr>outb := (replicate 260 0)[0 := 0xFF], out_size := 1\<rparr>)"
    by (subst write_loop.simps)
      (simp add: load_arr_def store_arr_def uart_reset_def write_loop_done u16_def)
  have l: "lock uart_reset = uart_reset"
    by (simp add: lock_def uart_reset_def)
  have u: "uart_write [0xFF] 1 uart_reset =
      Some (1, unlock (uart_reset\<lparr>outb := (replicate 260 0)[0 := 0xFF], out_size := 1\<rparr>))"
    using w by (simp add: uart_write_def l) (simp add: uart_reset_def)
  have d: "do_spi 0xFF uart_reset = Some (0x00, uart_reset)"
    by (simp add: do_spi_def spi_send_def spi_prio_def spi_filter_def timer_start_def
        uart_reset_def)
  have r: "spi_run [0xFF] uart_reset = Some ([0x00], uart_reset)"
    by (simp add: d)
  show ?thesis
    unfolding u r using take_store_last [of 0 "replicate 260 (0::u8)" "0xFF"]
    by (simp add: queued_def avail_def uart_available_def uart_reset_def)
qed

section \<open>The priority channel: timing out\<close>

text \<open>
  Claim C4 as stated fails: when \<open>uart_wait_prio\<close> times out on a frame of length 3 with
  one byte sent, the cursor becomes 3, the end of the frame, not 1, the offset of the
  first unsent frame byte; the two unsent frame bytes are no longer in the queue and
  the byte sent next is the ordinary one behind the frame.
\<close>

theorem wait_prio_timeout_counterexample:
  "prio_head ver_stalled < prio_size ver_stalled \<and>
   queued ver_stalled = [0x76, 0x00, 0x41, 0x42] \<and>
   uart_wait_prio 1 0 [([], 5)] ver_stalled \<noteq> None \<and>
   fst (the (uart_wait_prio 1 0 [([], 5)] ver_stalled)) = False \<and>
   out_head (snd (the (uart_wait_prio 1 0 [([], 5)] ver_stalled))) = 3 \<and>
   out_head (snd (the (uart_wait_prio 1 0 [([], 5)] ver_stalled))) \<noteq> prio_head ver_stalled \<and>
   queued (snd (the (uart_wait_prio 1 0 [([], 5)] ver_stalled))) = [0x41, 0x42]"
  by (simp add: ver_stalled_def uart_reset_def wait_prio_cleanup_def lock_def unlock_def
      irqEnable_def irqDisable_def timer_start_def queued_def)

text \<open>
  Claim C4, amended. When \<open>uart_wait_prio\<close> times out, the cursor becomes the frame
  length \<open>prio_size\<close>, so the unsent rest of the frame is skipped and the bytes behind
  the frame are sent next; the sent-count and the length are cleared, the reply
  destination and the suspend mask stay, the buffers stay, the timer is enabled again
  if one is open, and the call reports \<open>False\<close>.
\<close>

theorem wait_prio_timeout:
  assumes "prio_head s \<noteq> prio_size s" and "spi_run rds s = Some (txs, s1)"
    and "timeout \<noteq> 0" and "int timeout < now - start"
  shows "\<exists>t. uart_wait_prio timeout start ((rds, now) # env) s = Some (False, t) \<and>
           out_head t = prio_size s1 \<and> prio_size t = 0 \<and> prio_head t = 0 \<and>
           prio_dest t = prio_dest s1 \<and> prio_irq_bytes t = prio_irq_bytes s1 \<and>
           outb t = outb s1 \<and> out_size t = out_size s1 \<and>
           inb t = inb s1 \<and> in_size t = in_size s1 \<and>
           (timer s1 \<noteq> UART_TIMER_OFF \<longrightarrow> timer_en t (unat (timer s1))) \<and>
           (out_head s1 \<le> prio_size s1 \<longrightarrow>
              queued t = drop (prio_size s1 - out_head s1) (queued s1))"
proof -
  have "uart_wait_prio timeout start ((rds, now) # env) s = Some (False, wait_prio_cleanup s1)"
    using assms by simp
  moreover have "queued (wait_prio_cleanup s1) = drop (prio_size s1 - out_head s1) (queued s1)"
    if "out_head s1 \<le> prio_size s1"
    using that by (simp add: wait_prio_cleanup_def Let_def queued_def drop_take)
  ultimately show ?thesis
    by (simp add: wait_prio_cleanup_def Let_def timer_start_def)
qed

theorem wait_prio_timeout_witness:
  "prio_head ver_stalled \<noteq> prio_size ver_stalled \<and>
   spi_run [] ver_stalled = Some ([], ver_stalled) \<and> (1::nat) \<noteq> 0 \<and> int 1 < 5 - 0 \<and>
   timer ver_stalled \<noteq> UART_TIMER_OFF \<and> out_head ver_stalled \<le> prio_size ver_stalled \<and>
   (\<exists>t. uart_wait_prio 1 0 [([], 5)] ver_stalled = Some (False, t) \<and>
      out_head t = 3 \<and> prio_size t = 0 \<and> prio_head t = 0 \<and> prio_dest t = Some 100 \<and>
      out_size t = 5 \<and> timer_en t 3 \<and> queued t = [0x41, 0x42])"
proof -
  have a: "prio_head ver_stalled \<noteq> prio_size ver_stalled"
    "spi_run [] ver_stalled = Some ([], ver_stalled)" "(1::nat) \<noteq> 0" "int 1 < 5 - 0"
    by (simp_all add: ver_stalled_def uart_reset_def)
  have v: "prio_size ver_stalled = 3" "prio_dest ver_stalled = Some 100" "out_size ver_stalled = 5"
    "timer ver_stalled = 3" "out_head ver_stalled = 1"
    "queued ver_stalled = [0x76, 0x00, 0x41, 0x42]" "prio_head ver_stalled = 1"
    by (simp_all add: ver_stalled_def uart_reset_def queued_def)
  have c: "\<exists>t. uart_wait_prio 1 0 [([], 5)] ver_stalled = Some (False, t) \<and>
      out_head t = 3 \<and> prio_size t = 0 \<and> prio_head t = 0 \<and> prio_dest t = Some 100 \<and>
      out_size t = 5 \<and> timer_en t 3 \<and> queued t = [0x41, 0x42]"
    using wait_prio_timeout [OF a, of "[]"] by (auto simp add: v simp del: uart_wait_prio.simps)
  show ?thesis
    using a v c by (simp del: uart_wait_prio.simps spi_run.simps)
qed

section \<open>Watermarks\<close>





section \<open>Requeueing\<close>

text \<open>
  Claim C8 against the code. \<open>uart_requeue\<close> of one byte into a buffer holding one
  byte returns \<open>True\<close>, but the count of unread bytes is still 1 and the unread byte is
  the old one: the byte given went to the front of the outbound array, and is queued
  for transmission.
\<close>

theorem requeue_writes_out:
  "uart_requeue [0x42] 1 one_unread \<noteq> None \<and>
   fst (the (uart_requeue [0x42] 1 one_unread)) = True \<and>
   uart_available one_unread = 1 \<and>
   uart_available (snd (the (uart_requeue [0x42] 1 one_unread))) = 1 \<and>
   avail (snd (the (uart_requeue [0x42] 1 one_unread))) = [0x41] \<and>
   queued one_unread = [] \<and>
   queued (snd (the (uart_requeue [0x42] 1 one_unread))) = [0x42]"
  by (simp add: one_unread_def uart_reset_def uart_requeue_def memmove_arr_def memcpy_arr_def
      lock_def unlock_def Let_def queued_def avail_def uart_available_def u16_def)

section \<open>Initialisation\<close>

text \<open>
  Claim C9 against the code. With a free timer and a version byte of \<open>0x00\<close>,
  \<open>uart_init\<close> returns \<open>False\<close> and leaves \<open>timer\<close> = 3, the card-line interrupt enabled and
  the timer running; a second \<open>uart_init\<close> returns \<open>False\<close> at its first test. With no
  free timer it returns \<open>False\<close> with the link and the card-line interrupt still on.
  \<open>uart_close\<close> does reset \<open>timer\<close> and disable the card-line interrupt.
\<close>

theorem init_failure_not_closed:
  "timer uart_reset = UART_TIMER_OFF \<and>
   map_option fst (uart_init True 100 0 absent_card uart_reset) = Some False \<and>
   timer (snd (the (uart_init True 100 0 absent_card uart_reset))) = 3 \<and>
   timer (snd (the (uart_init True 100 0 absent_card uart_reset))) \<noteq> UART_TIMER_OFF \<and>
   ie (snd (the (uart_init True 100 0 absent_card uart_reset))) AND IRQ_CARD_LINE \<noteq> 0 \<and>
   timer_en (snd (the (uart_init True 100 0 absent_card uart_reset))) 3 \<and>
   map_option fst
     (uart_init True 100 0 [] (snd (the (uart_init True 100 0 absent_card uart_reset)))) =
     Some False \<and>
   map_option fst (uart_init True 100 0 absent_card no_timer) = Some False \<and>
   spi_on (snd (the (uart_init True 100 0 absent_card no_timer))) \<and>
   ie (snd (the (uart_init True 100 0 absent_card no_timer))) AND IRQ_CARD_LINE \<noteq> 0 \<and>
   timer (uart_close (snd (the (uart_init True 100 0 absent_card uart_reset)))) = UART_TIMER_OFF \<and>
   ie (uart_close (snd (the (uart_init True 100 0 absent_card uart_reset)))) AND IRQ_CARD_LINE = 0"
  by code_simp

end
